theory Spec2Isabelle
  imports Complex_Main "HOL-Library.AList" "HOL-Library.Multiset" "HOL-Library.Word"
begin

section \<open>Numbers of the language\<close>

text \<open>
  A \<^verbatim>\<open>number\<close> is an IEEE 754 double: \<^verbatim>\<open>NaN\<close>, an infinity, or a finite value (a real that
  a double represents).  \<open>roundToDouble\<close> rounds an exact real result to the nearest
  double, ties to even, with the smallest exponent \<open>-1022\<close> (below it the spacing stays
  \<open>2^-1074\<close>) and overflow to infinity from \<open>2^1024\<close> on.
\<close>

datatype number = NaN | PosInfinity | NegInfinity | Fin real

definition roundHalfEven :: "real \<Rightarrow> int" where
  "roundHalfEven t =
     (let f = \<lfloor>t\<rfloor> in
      if t - of_int f < 1 / 2 then f
      else if t - of_int f > 1 / 2 then f + 1
      else if even f then f else f + 1)"

definition roundToDouble :: "real \<Rightarrow> number" where
  "roundToDouble x =
     (if x = 0 then Fin 0
      else
        (let e = max \<lfloor>log 2 \<bar>x\<bar>\<rfloor> (- 1022);
             q = 2 powr of_int (e - 52);
             y = of_int (roundHalfEven (x / q)) * q
         in if \<bar>y\<bar> \<ge> 2 ^ 1024 then (if x > 0 then PosInfinity else NegInfinity)
            else Fin y))"

text \<open>\<^verbatim>\<open>a + b\<close> on two numbers.\<close>

fun numAdd :: "number \<Rightarrow> number \<Rightarrow> number" where
  "numAdd (Fin a) (Fin b) = roundToDouble (a + b)"
| "numAdd NaN b = NaN"
| "numAdd a NaN = NaN"
| "numAdd PosInfinity NegInfinity = NaN"
| "numAdd NegInfinity PosInfinity = NaN"
| "numAdd PosInfinity b = PosInfinity"
| "numAdd a PosInfinity = PosInfinity"
| "numAdd NegInfinity b = NegInfinity"
| "numAdd a NegInfinity = NegInfinity"

text \<open>\<^verbatim>\<open>a > b\<close> for a number and a finite bound.\<close>

fun numGreater :: "number \<Rightarrow> real \<Rightarrow> bool" where
  "numGreater (Fin a) b = (a > b)"
| "numGreater PosInfinity b = True"
| "numGreater NegInfinity b = False"
| "numGreater NaN b = False"


section \<open>Errors and observable effects\<close>

text \<open>
  Every \<^verbatim>\<open>throw\<close> of the hooks is a value of \<open>error\<close>; a function that can throw
  returns \<open>error + 'a\<close> with \<open>Inl\<close> the thrown error.  Errors raised inside the external
  collaborators (RPC provider, gateway, WebCrypto, ethers) are \<open>External\<close>.
\<close>

datatype error =
    NoProvider                    \<comment> \<open>\<^verbatim>\<open>No provider available\<close>\<close>
  | WalletNotConnected            \<comment> \<open>\<^verbatim>\<open>Please connect your wallet\<close>\<close>
  | TargetBlockOverflow number int  \<comment> \<open>\<^verbatim>\<open>Target block ${targetBlock} exceeds uint40 maximum value ${MAX_UINT40}\<close>\<close>
  | NoFeeData                     \<comment> \<open>\<^verbatim>\<open>No fee data found\<close>\<close>
  | TxNotConfirmed                \<comment> \<open>\<^verbatim>\<open>Transaction failed to confirm\<close>\<close>
  | CreatedEventMissing           \<comment> \<open>\<^verbatim>\<open>Could not find Created event in transaction logs\<close>\<close>
  | HashMismatch                  \<comment> \<open>\<^verbatim>\<open>Encrypted CID hash mismatch\<close>\<close>
  | MissingEncryptedCid           \<comment> \<open>\<^verbatim>\<open>Missing encrypted CID\<close>\<close>
  | FetchFailed string            \<comment> \<open>\<^verbatim>\<open>Failed to fetch file: ${statusText}\<close>\<close>
  | CiphertextMalformed           \<comment> \<open>\<^verbatim>\<open>Ciphertext too short\<close>\<close>
  | UnsupportedVersion            \<comment> \<open>\<^verbatim>\<open>Unsupported ciphertext version\<close>\<close>
  | TypeError string              \<comment> \<open>a \<^verbatim>\<open>TypeError\<close> or \<^verbatim>\<open>RangeError\<close> of the language itself\<close>
  | ThrownUndefined               \<comment> \<open>\<^verbatim>\<open>throw last\<close> with \<^verbatim>\<open>last\<close> never assigned\<close>
  | External string               \<comment> \<open>an error thrown by an external collaborator\<close>

text \<open>
  Calls to the outside world and console warnings are recorded, oldest first, in a trace.
  A collaborator's answer may depend on everything that happened before (a fetch that
  fails once may succeed when asked again), so each collaborator is a function of the
  trace so far.
\<close>

datatype logFilter =
    RevealedFilter int     \<comment> \<open>topics \<^verbatim>\<open>[id("Revealed(uint256,bytes)"), pad32(requestId)]\<close>\<close>
  | CreatedFilter string   \<comment> \<open>topics \<^verbatim>\<open>[id("Created(uint256,address,bytes32,uint40)"), pad32(address)]\<close>\<close>

datatype event =
    GetBlockNumber
  | GetLogs int int          \<comment> \<open>\<^verbatim>\<open>getLogs({...filter, fromBlock, toBlock})\<close>\<close>
  | Warn int int             \<comment> \<open>\<^verbatim>\<open>console.warn(`Failed to get logs for blocks ${start}-${end}:`)\<close>\<close>
  | SetLastBlock int         \<comment> \<open>\<^verbatim>\<open>localStorage.setItem(`media_release_last_block_...`)\<close>\<close>
  | Sleep nat                \<comment> \<open>\<^verbatim>\<open>setTimeout(r, delayMs)\<close>\<close>
  | Encrypt                  \<comment> \<open>\<^verbatim>\<open>blocklock.encrypt\<close>\<close>
  | GetFeeData
  | EstimateRequestPrice
  | SendCreateTx
  | WaitReceipt

type_synonym trace = "event list"

record 'l provider =
  getBlockNumber :: "trace \<Rightarrow> error + int"
  getLogs :: "trace \<Rightarrow> logFilter \<Rightarrow> int \<Rightarrow> int \<Rightarrow> error + 'l list"

text \<open>The block ranges requested from \<^verbatim>\<open>getLogs\<close>, and the ranges warned about, in order.\<close>

fun fetchRanges :: "trace \<Rightarrow> (int \<times> int) list" where
  "fetchRanges [] = []"
| "fetchRanges (GetLogs s e # tr) = (s, e) # fetchRanges tr"
| "fetchRanges (_ # tr) = fetchRanges tr"

fun warnRanges :: "trace \<Rightarrow> (int \<times> int) list" where
  "warnRanges [] = []"
| "warnRanges (Warn s e # tr) = (s, e) # warnRanges tr"
| "warnRanges (_ # tr) = warnRanges tr"


section \<open>ChainEventScanner: \<^verbatim>\<open>useMediaReleaseViewer\<close>\<close>

subsection \<open>\<^verbatim>\<open>getLogsChunked\<close>\<close>

text \<open>
  \<^verbatim>\<open>for (let start = fromBlock; start <= toBlock; start += chunkSize)\<close>: the loop state
  is the log array and the trace.  With \<open>chunkSize \<le> 0\<close> the loop of the source never
  ends; here that is the value \<open>None\<close>.
\<close>

partial_function (option) chunkLoop ::
  "'l provider \<Rightarrow> logFilter \<Rightarrow> int \<Rightarrow> int \<Rightarrow> int \<Rightarrow> 'l list \<times> trace \<Rightarrow> ('l list \<times> trace) option"
where
  "chunkLoop p flt start toBlock chunkSize st =
     (if start \<le> toBlock then
        (let e = min (start + chunkSize - 1) toBlock in
         case getLogs p (snd st) flt start e of
           Inr chunkLogs \<Rightarrow>
             chunkLoop p flt (start + chunkSize) toBlock chunkSize
               (fst st @ chunkLogs, snd st @ [GetLogs start e])
         | Inl err \<Rightarrow>
             chunkLoop p flt (start + chunkSize) toBlock chunkSize
               (fst st, snd st @ [GetLogs start e, Warn start e]))
      else Some st)"

definition getLogsChunked ::
  "'l provider option \<Rightarrow> logFilter \<Rightarrow> int \<Rightarrow> int \<Rightarrow> int \<Rightarrow> trace \<Rightarrow> ((error + 'l list) \<times> trace) option"
where
  "getLogsChunked readProv flt fromBlock toBlock chunkSize tr =
     (case readProv of
        None \<Rightarrow> Some (Inl NoProvider, tr)
      | Some p \<Rightarrow>
          map_option (\<lambda>st. (Inr (fst st), snd st))
            (chunkLoop p flt fromBlock toBlock chunkSize ([], tr)))"

subsection \<open>\<^verbatim>\<open>withRetry\<close>\<close>

text \<open>
  \<^verbatim>\<open>for (let i = 0; i < attempts; i++) { try { return await fn(); } catch (e) {...} } throw last;\<close>
  With no attempt made, \<^verbatim>\<open>last\<close> is still \<^verbatim>\<open>undefined\<close> when it is thrown.
\<close>

function retryLoop ::
  "(trace \<Rightarrow> (error + 'a) \<times> trace) \<Rightarrow> nat \<Rightarrow> nat \<Rightarrow> nat \<Rightarrow> error option \<Rightarrow> trace
     \<Rightarrow> (error + 'a) \<times> trace"
where
  "retryLoop fn i attempts delayMs lastErr tr =
     (if i < attempts then
        (case fn tr of
           (Inr v, tr') \<Rightarrow> (Inr v, tr')
         | (Inl e, tr') \<Rightarrow>
             retryLoop fn (i + 1) attempts delayMs (Some e)
               (if i < attempts - 1 then tr' @ [Sleep delayMs] else tr'))
      else (case lastErr of
              None \<Rightarrow> (Inl ThrownUndefined, tr)
            | Some e \<Rightarrow> (Inl e, tr)))"
  by pat_completeness auto
termination
  by (relation "measure (\<lambda>(fn, i, attempts, delayMs, lastErr, tr). attempts - i)") auto

definition withRetry ::
  "(trace \<Rightarrow> (error + 'a) \<times> trace) \<Rightarrow> nat \<Rightarrow> nat \<Rightarrow> trace \<Rightarrow> (error + 'a) \<times> trace"
where
  "withRetry fn attempts delayMs tr = retryLoop fn 0 attempts delayMs None tr"

subsection \<open>\<^verbatim>\<open>fetchRevealedPayload\<close>\<close>

record parsedLog =
  name :: string
  argRequestId :: "int option"    \<comment> \<open>\<^verbatim>\<open>parsed.args.requestId\<close>\<close>
  argPayload :: "string option"   \<comment> \<open>\<^verbatim>\<open>parsed.args?.payload ?? parsed.args?.[1] ?? null\<close>\<close>

record 'l scanner =
  readProv :: "'l provider option"              \<comment> \<open>\<^verbatim>\<open>readonlyProvider || provider\<close>\<close>
  parseLog :: "'l \<Rightarrow> error + parsedLog option"   \<comment> \<open>\<^verbatim>\<open>iface.parseLog\<close>\<close>
  logBlockNumber :: "'l \<Rightarrow> int option"          \<comment> \<open>\<^verbatim>\<open>l.blockNumber\<close>\<close>
  DEFAULT_GETLOGS_CHUNK :: int
  PREFETCH_BLOCKS_BEFORE :: int
  REVEAL_SEARCH_FORWARD :: int

text \<open>\<^verbatim>\<open>for (const l of logs)\<close>: the first log that parses as \<^verbatim>\<open>Revealed\<close> with a truthy payload.\<close>

fun firstRevealed :: "'l scanner \<Rightarrow> int \<Rightarrow> 'l list \<Rightarrow> trace \<Rightarrow> string option \<times> trace" where
  "firstRevealed sc toBlock [] tr = (None, tr)"
| "firstRevealed sc toBlock (l # ls) tr =
     (case parseLog sc l of
        Inl err \<Rightarrow> firstRevealed sc toBlock ls tr
      | Inr None \<Rightarrow> firstRevealed sc toBlock ls tr
      | Inr (Some parsed) \<Rightarrow>
          (if name parsed = ''Revealed'' then
             (case argPayload parsed of
                None \<Rightarrow> firstRevealed sc toBlock ls tr
              | Some pl \<Rightarrow>
                  (if pl = [] then firstRevealed sc toBlock ls tr
                   else (Some pl,
                         tr @ [SetLastBlock (case logBlockNumber sc l of
                                               None \<Rightarrow> toBlock | Some b \<Rightarrow> b)])))
           else firstRevealed sc toBlock ls tr))"

definition fetchRevealedPayload ::
  "'l scanner \<Rightarrow> int \<Rightarrow> int option \<Rightarrow> trace \<Rightarrow> ((error + string option) \<times> trace) option"
where
  "fetchRevealedPayload sc requestId targetBlock tr =
     (case readProv sc of
        None \<Rightarrow> Some (Inl NoProvider, tr)
      | Some p \<Rightarrow>
          (case getBlockNumber p tr of
             Inl err \<Rightarrow> Some (Inl err, tr @ [GetBlockNumber])
           | Inr currentBlock \<Rightarrow>
               (let tr1 = tr @ [GetBlockNumber] in
                if (case targetBlock of
                      None \<Rightarrow> False
                    | Some tb \<Rightarrow> currentBlock < tb - PREFETCH_BLOCKS_BEFORE sc)
                then Some (Inr None, tr1)
                else
                  (let fromBlock = (case targetBlock of
                                      None \<Rightarrow> max 0 (currentBlock - 500)
                                    | Some tb \<Rightarrow> max 0 (tb - PREFETCH_BLOCKS_BEFORE sc));
                       toBlock = (case targetBlock of
                                    None \<Rightarrow> currentBlock
                                  | Some tb \<Rightarrow> min currentBlock (tb + REVEAL_SEARCH_FORWARD sc))
                   in if fromBlock > toBlock then Some (Inr None, tr1)
                      else
                        (case getLogsChunked (readProv sc) (RevealedFilter requestId)
                                fromBlock toBlock (DEFAULT_GETLOGS_CHUNK sc) tr1 of
                           None \<Rightarrow> None
                         | Some (Inl err, tr2) \<Rightarrow> Some (Inl err, tr2)
                         | Some (Inr logs, tr2) \<Rightarrow>
                             (case firstRevealed sc toBlock logs tr2 of
                                (res, tr3) \<Rightarrow> Some (Inr res, tr3)))))))"


section \<open>Auxiliary definitions for the scanner properties\<close>
subsection \<open>The chunk boundaries\<close>

text \<open>The list of chunk boundaries the loop walks through, used to describe its trace.\<close>

function chunkBounds :: "int \<Rightarrow> int \<Rightarrow> int \<Rightarrow> (int \<times> int) list" where
  "chunkBounds start toBlock chunkSize =
     (if start \<le> toBlock \<and> 0 < chunkSize
      then (start, min (start + chunkSize - 1) toBlock)
             # chunkBounds (start + chunkSize) toBlock chunkSize
      else [])"
  by pat_completeness auto
termination
  by (relation "measure (\<lambda>(start, toBlock, chunkSize). nat (toBlock - start + 1))") auto

declare chunkBounds.simps [simp del]

text \<open>A provider that refuses every range the first time it is asked and answers the second time.\<close>

definition flakyProvider :: "nat provider" where
  "flakyProvider =
     \<lparr>getBlockNumber = (\<lambda>h. Inr 9),
      getLogs = (\<lambda>h flt s e. if GetLogs s e \<in> set h then Inr [7] else Inl (External ''rate limit''))\<rparr>"

definition steadyProvider :: "nat provider" where
  "steadyProvider = \<lparr>getBlockNumber = (\<lambda>h. Inr 100), getLogs = (\<lambda>h flt s e. Inr [])\<rparr>"

definition steadyScanner :: "nat scanner" where
  "steadyScanner =
     \<lparr>readProv = Some steadyProvider, parseLog = (\<lambda>l. Inr None), logBlockNumber = (\<lambda>l. None),
      DEFAULT_GETLOGS_CHUNK = 10, PREFETCH_BLOCKS_BEFORE = 12, REVEAL_SEARCH_FORWARD = 200\<rparr>"

text \<open>A provider that refuses the range starting at block 10 the first time it is asked for
  it, and answers every other request with one log.\<close>

definition patchyProvider :: "nat provider" where
  "patchyProvider =
     \<lparr>getBlockNumber = (\<lambda>h. Inr 36),
      getLogs = (\<lambda>h flt s e. if s = 10 \<and> GetLogs s e \<notin> set h then Inl (External ''rate limit'')
                               else Inr [nat s])\<rparr>"

text \<open>
  Reading a trace back against the provider.  \<open>answered p flt h tr\<close> is the concatenation
  of what the provider answered to each \<^verbatim>\<open>getLogs\<close> request of \<open>tr\<close> at the moment the
  request was made (\<open>h\<close> is what happened before \<open>tr\<close>), a refused request contributing
  nothing; \<open>refused p flt h tr\<close> lists the ranges of the requests it refused.
\<close>

fun answered :: "'l provider \<Rightarrow> logFilter \<Rightarrow> trace \<Rightarrow> trace \<Rightarrow> 'l list" where
  "answered p flt h [] = []"
| "answered p flt h (GetLogs s e # tr) =
     (case getLogs p h flt s e of Inl err \<Rightarrow> [] | Inr ls \<Rightarrow> ls)
       @ answered p flt (h @ [GetLogs s e]) tr"
| "answered p flt h (ev # tr) = answered p flt (h @ [ev]) tr"

fun refused :: "'l provider \<Rightarrow> logFilter \<Rightarrow> trace \<Rightarrow> trace \<Rightarrow> (int \<times> int) list" where
  "refused p flt h [] = []"
| "refused p flt h (GetLogs s e # tr) =
     (case getLogs p h flt s e of Inl err \<Rightarrow> [(s, e)] | Inr ls \<Rightarrow> [])
       @ refused p flt (h @ [GetLogs s e]) tr"
| "refused p flt h (ev # tr) = refused p flt (h @ [ev]) tr"


section \<open>JavaScript values and built-ins\<close>

text \<open>
  \<^verbatim>\<open>payload: any\<close> is whatever \<^verbatim>\<open>JSON.parse\<close> returned, so the reveal payload and the
  metadata read from it are untyped JavaScript values.
\<close>

datatype jsval =
    Undefined
  | Null
  | Bool bool
  | Num number
  | Str string
  | Arr "jsval list"
  | Obj "(string \<times> jsval) list"

text \<open>\<^verbatim>\<open>v.key\<close> on a value that is neither \<^verbatim>\<open>null\<close> nor \<^verbatim>\<open>undefined\<close>, for the keys
  \<^verbatim>\<open>k, c, n, t, s\<close>, which no prototype defines.\<close>

fun getProp :: "jsval \<Rightarrow> string \<Rightarrow> jsval" where
  "getProp (Obj kvs) key = (case map_of kvs key of None \<Rightarrow> Undefined | Some v \<Rightarrow> v)"
| "getProp _ key = Undefined"

fun truthy :: "jsval \<Rightarrow> bool" where
  "truthy Undefined = False"
| "truthy Null = False"
| "truthy (Bool b) = b"
| "truthy (Num x) = (x \<noteq> NaN \<and> x \<noteq> Fin 0)"
| "truthy (Str s) = (s \<noteq> [])"
| "truthy (Arr vs) = True"
| "truthy (Obj kvs) = True"

definition orElse :: "jsval \<Rightarrow> jsval \<Rightarrow> jsval" where
  "orElse a b = (if truthy a then a else b)"

type_synonym bytes = "8 word list"

text \<open>
  The built-ins of the language and of ethers that the hooks call.  They are not part of
  the repository, so they are parameters: \<open>JSON_parse\<close> is \<open>None\<close> where
  \<^verbatim>\<open>JSON.parse\<close> throws, \<open>toNumber\<close> is \<^verbatim>\<open>Number(s)\<close>.
\<close>

record runtime =
  JSON_parse :: "string \<Rightarrow> jsval option"
  JSON_stringify :: "jsval \<Rightarrow> string"
  toUtf8Bytes :: "string \<Rightarrow> error + bytes"
  toUtf8String :: "string \<Rightarrow> error + string"
  hexlify :: "bytes \<Rightarrow> string"
  keccak256 :: "bytes \<Rightarrow> string"
  toLowerCase :: "string \<Rightarrow> string"
  toNumber :: "string \<Rightarrow> number"


section \<open>The release record\<close>

text \<open>A block height is a \<^verbatim>\<open>bigint\<close> or a \<^verbatim>\<open>number\<close>; the language refuses to mix the
  two in arithmetic, and compares them by value.\<close>

datatype jsnumeric = Number int | BigInt int

fun valueOf :: "jsnumeric \<Rightarrow> int" where
  "valueOf (Number n) = n"
| "valueOf (BigInt n) = n"

fun js_minus :: "jsnumeric \<Rightarrow> jsnumeric \<Rightarrow> error + jsnumeric" where
  "js_minus (BigInt a) (BigInt b) = Inr (BigInt (a - b))"
| "js_minus (Number a) (Number b) = Inr (Number (a - b))"
| "js_minus _ _ = Inl (TypeError ''Cannot mix BigInt and other types, use explicit conversions'')"

text \<open>
  \<^verbatim>\<open>interface MediaReleaseInfo\<close>.  The optional members are \<open>None\<close> where the object
  holds \<^verbatim>\<open>undefined\<close>.  The two heights keep the kind of number they were built from:
  \<^verbatim>\<open>unlockAtBlock\<close> comes from event arguments, \<^verbatim>\<open>metaOf\<close> or \<^verbatim>\<open>BigInt(...)\<close>,
  \<^verbatim>\<open>currentBlock\<close> from \<^verbatim>\<open>getBlockNumber()\<close>.
\<close>

record MediaReleaseInfo =
  requestId :: int                        \<comment> \<open>\<^verbatim>\<open>bigint\<close>\<close>
  creator :: string
  fileCidHash :: string
  unlockAtBlock :: jsnumeric              \<comment> \<open>declared \<^verbatim>\<open>bigint\<close>\<close>
  isRevealed :: bool
  revealed :: "string option"
  currentBlock :: "jsnumeric option"      \<comment> \<open>declared \<^verbatim>\<open>Number\<close>\<close>
  isUnlocked :: "bool option"

text \<open>
  The metadata is built from \<^verbatim>\<open>payload: any\<close> (\<^verbatim>\<open>payload.n || "encrypted-file"\<close>, ...), so
  at run time its fields hold whatever values the payload held; the interface declares
  them \<^verbatim>\<open>string\<close> and \<^verbatim>\<open>number\<close>.
\<close>

record MediaMetadata =
  filename :: jsval
  size' :: jsval
  type :: jsval
  fileCid :: jsval
  decryptionKey :: jsval
  timestamp :: string


section \<open>RevealVerifier: \<^verbatim>\<open>decryptMetadata\<close>\<close>

text \<open>Lines 292--294: decode the bytes as UTF-8 and parse; a parse error leaves \<^verbatim>\<open>null\<close>.
  The result is the decoded text together with the parsed payload.\<close>

definition parseRevealed :: "runtime \<Rightarrow> string \<Rightarrow> error + (string \<times> jsval)" where
  "parseRevealed rt revealedData =
     (case toUtf8String rt revealedData of
        Inl err \<Rightarrow> Inl err
      | Inr json \<Rightarrow> Inr (json, case JSON_parse rt json of None \<Rightarrow> Null | Some v \<Rightarrow> v))"

text \<open>Lines 298--303: the comparison with the on-chain hash, made only for a release
  that was passed in and carries a non-empty \<^verbatim>\<open>fileCidHash\<close>.\<close>

definition checkCidHash :: "runtime \<Rightarrow> jsval \<Rightarrow> MediaReleaseInfo option \<Rightarrow> error + unit" where
  "checkCidHash rt c release =
     (case release of
        None \<Rightarrow> Inr ()
      | Some r \<Rightarrow>
          (if fileCidHash r = [] then Inr ()
           else (case c of
                   Str s \<Rightarrow>
                     (case toUtf8Bytes rt s of
                        Inl err \<Rightarrow> Inl err
                      | Inr bs \<Rightarrow>
                          (if toLowerCase rt (keccak256 rt bs) \<noteq> toLowerCase rt (fileCidHash r)
                           then Inl HashMismatch else Inr ()))
                 | _ \<Rightarrow> Inl (TypeError ''invalid string value''))))"

definition decryptMetadata ::
  "runtime \<Rightarrow> string \<Rightarrow> MediaReleaseInfo option \<Rightarrow> string \<Rightarrow> MediaMetadata option"
where
  "decryptMetadata rt revealedData release now =
     (case parseRevealed rt revealedData of
        Inl err \<Rightarrow> None
      | Inr (json, payload) \<Rightarrow>
          (if truthy payload \<and> truthy (getProp payload ''k'') \<and> truthy (getProp payload ''c'') then
             (case checkCidHash rt (getProp payload ''c'') release of
                Inl err \<Rightarrow> None
              | Inr u \<Rightarrow>
                  Some \<lparr>filename = orElse (getProp payload ''n'') (Str ''encrypted-file''),
                        size' = orElse (getProp payload ''s'') (Num (Fin 0)),
                        type = orElse (getProp payload ''t'') (Str ''application/octet-stream''),
                        fileCid = getProp payload ''c'',
                        decryptionKey = getProp payload ''k'',
                        timestamp = now\<rparr>)
           else
             Some \<lparr>filename = Str ''encrypted-file'',
                   size' = Num (Fin 0),
                   type = Str ''application/octet-stream'',
                   fileCid = Str [],
                   decryptionKey = Str json,
                   timestamp = now\<rparr>))"

text \<open>\<^verbatim>\<open>handleReleaseSelect\<close> of the viewer page: the only caller, and it passes no release.\<close>

definition handleReleaseSelect :: "runtime \<Rightarrow> MediaReleaseInfo \<Rightarrow> string \<Rightarrow> MediaMetadata option" where
  "handleReleaseSelect rt release now =
     (if isRevealed release then
        (case revealed release of
           None \<Rightarrow> None
         | Some data \<Rightarrow> (if data = [] then None else decryptMetadata rt data None now))
      else None)"


section \<open>CiphertextCodec: decoding in the viewer\<close>

text \<open>
  The gateway and WebCrypto.  \<open>fetchCiphertext\<close> is \<^verbatim>\<open>fetch(fileUrl)\<close> for the locator put
  in the URL: \<open>Inl\<close> where \<^verbatim>\<open>fetch\<close> rejects, \<open>Inr (Inl statusText)\<close> for a response that
  is not \<^verbatim>\<open>ok\<close>, else the body.  \<open>aesGcmDecrypt\<close> is lines 350--352: the key bytes read
  from the hex string, \<^verbatim>\<open>importKey\<close> and \<^verbatim>\<open>decrypt\<close>.
\<close>

record gateway =
  fetchCiphertext :: "jsval \<Rightarrow> error + (string + bytes)"
  aesGcmDecrypt :: "jsval \<Rightarrow> bytes \<Rightarrow> bytes \<Rightarrow> error + bytes"

text \<open>Lines 344--352 and 374--382, the same block in both functions.\<close>

definition decodeCiphertext :: "gateway \<Rightarrow> jsval \<Rightarrow> bytes \<Rightarrow> error + bytes" where
  "decodeCiphertext gw key ciphertext =
     (if length ciphertext < 1 + 12 + 16 then Inl CiphertextMalformed
      else if hd ciphertext \<noteq> 1 then Inl UnsupportedVersion
      else aesGcmDecrypt gw key (take 12 (drop 1 ciphertext)) (drop 13 ciphertext))"

definition fetchAndDecode :: "gateway \<Rightarrow> MediaMetadata \<Rightarrow> error + bytes" where
  "fetchAndDecode gw metadata =
     (if \<not> truthy (fileCid metadata) then Inl MissingEncryptedCid
      else (case fetchCiphertext gw (fileCid metadata) of
              Inl err \<Rightarrow> Inl err
            | Inr (Inl statusText) \<Rightarrow> Inl (FetchFailed statusText)
            | Inr (Inr ciphertext) \<Rightarrow> decodeCiphertext gw (decryptionKey metadata) ciphertext))"

text \<open>\<^verbatim>\<open>createMediaPreviewUrl\<close> logs the error and returns \<^verbatim>\<open>null\<close>; the blob URL is
  represented by the plaintext and MIME type it was made from.\<close>

definition createMediaPreviewUrl :: "gateway \<Rightarrow> MediaMetadata \<Rightarrow> (bytes \<times> jsval) option" where
  "createMediaPreviewUrl gw metadata =
     (case fetchAndDecode gw metadata of
        Inl err \<Rightarrow> None
      | Inr plaintext \<Rightarrow> Some (plaintext, orElse (type metadata) (Str ''application/octet-stream'')))"

text \<open>\<^verbatim>\<open>downloadDecryptedFile\<close> logs the error and throws it again; on success the browser
  is handed the plaintext under the file name.\<close>

definition downloadDecryptedFile :: "gateway \<Rightarrow> MediaMetadata \<Rightarrow> error + (bytes \<times> jsval \<times> jsval)" where
  "downloadDecryptedFile gw metadata =
     (case fetchAndDecode gw metadata of
        Inl err \<Rightarrow> Inl err
      | Inr plaintext \<Rightarrow>
          Inr (plaintext, orElse (type metadata) (Str ''application/octet-stream''),
               orElse (filename metadata) (Str ''file'')))"


section \<open>TimeLockRequestBuilder: \<^verbatim>\<open>createMediaRelease\<close>\<close>

record MediaReleaseRequest =
  fileCid :: string
  decryptionKey :: string
  blocksAhead :: string
  filename :: "string option"
  filetype :: "string option"
  filesize :: "number option"

record MediaReleaseResult =
  requestId :: "int option"
  targetBlock :: int
  createdAtBlock :: int
  txHash :: string

record txArgs =
  callbackGasLimit :: int
  unlockAtBlockArg :: real
  encCidHash :: string
  conditionBytes :: bytes
  decryptionKeyCipher :: bytes
  txValue :: int

text \<open>
  The wallet, the Blocklock library and the contracts.  Every field that takes a trace is
  a network call; \<open>createFromChainId\<close> is \<open>Some\<close> the error where the factory throws.
\<close>

record 'l wallet =
  connected :: bool                                  \<comment> \<open>\<^verbatim>\<open>signer && provider && chainId\<close>\<close>
  blockNumber :: "trace \<Rightarrow> error + int"
  createFromChainId :: "error option"
  encodeCondition :: "int \<Rightarrow> bytes"
  encrypt :: "trace \<Rightarrow> bytes \<Rightarrow> int \<Rightarrow> error + bytes"
  encodeCiphertextToSolidity :: "bytes \<Rightarrow> bytes"
  getFeeData :: "trace \<Rightarrow> error + int option"        \<comment> \<open>\<^verbatim>\<open>feeData.maxFeePerGas\<close>\<close>
  estimateRequestPriceNative :: "trace \<Rightarrow> int \<Rightarrow> int \<Rightarrow> error + int"
  createReleaseWithDirectFunding :: "trace \<Rightarrow> txArgs \<Rightarrow> error + string"
  waitReceipt :: "trace \<Rightarrow> string \<Rightarrow> error + 'l list option option"
  parseReceiptLog :: "'l \<Rightarrow> error + parsedLog option"

text \<open>A computation that may throw and that extends the trace.\<close>

definition bindE ::
  "(error + 'a) \<times> trace \<Rightarrow> ('a \<Rightarrow> trace \<Rightarrow> (error + 'b) \<times> trace) \<Rightarrow> (error + 'b) \<times> trace"
where
  "bindE m f = (case m of (Inl err, tr) \<Rightarrow> (Inl err, tr) | (Inr v, tr) \<Rightarrow> f v tr)"

definition call :: "event \<Rightarrow> (trace \<Rightarrow> error + 'a) \<Rightarrow> trace \<Rightarrow> (error + 'a) \<times> trace" where
  "call ev f tr = (f tr, tr @ [ev])"

definition MAX_UINT40 :: int where
  "MAX_UINT40 = 2 ^ 40 - 1"

text \<open>\<^verbatim>\<open>BigInt(x)\<close> of a number: a \<^verbatim>\<open>RangeError\<close> unless \<open>x\<close> is a finite integer.\<close>

definition toBigInt :: "number \<Rightarrow> error + int" where
  "toBigInt x =
     (case x of
        Fin r \<Rightarrow>
          (if r = of_int \<lfloor>r\<rfloor> then Inr \<lfloor>r\<rfloor>
           else Inl (TypeError ''RangeError: not an integer''))
      | _ \<Rightarrow> Inl (TypeError ''RangeError: not an integer''))"

text \<open>Lines 64--67: the reveal payload object.\<close>

definition payloadObj :: "MediaReleaseRequest \<Rightarrow> jsval" where
  "payloadObj request =
     Obj ([(''k'', Str (MediaReleaseRequest.decryptionKey request)),
           (''c'', Str (MediaReleaseRequest.fileCid request))]
          @ (case MediaReleaseRequest.filename request of
               None \<Rightarrow> [] | Some n \<Rightarrow> (if n \<noteq> [] then [(''n'', Str n)] else []))
          @ (case filetype request of
               None \<Rightarrow> [] | Some t \<Rightarrow> (if t \<noteq> [] then [(''t'', Str t)] else []))
          @ (case filesize request of
               None \<Rightarrow> [] | Some s \<Rightarrow> [(''s'', Num s)]))"

text \<open>Lines 139--147: the first receipt log that parses as \<^verbatim>\<open>Created\<close>.\<close>

fun findCreated :: "'l wallet \<Rightarrow> 'l list \<Rightarrow> 'l option" where
  "findCreated w [] = None"
| "findCreated w (l # ls) =
     (case parseReceiptLog w l of
        Inr (Some parsed) \<Rightarrow> (if name parsed = ''Created'' then Some l else findCreated w ls)
      | _ \<Rightarrow> findCreated w ls)"

text \<open>Lines 57--164, everything after the range check.  \<open>height\<close> is \<^verbatim>\<open>currentBlock\<close>
  and \<open>target\<close> is \<^verbatim>\<open>targetBlock\<close>.\<close>

definition submitRelease ::
  "runtime \<Rightarrow> 'l wallet \<Rightarrow> MediaReleaseRequest \<Rightarrow> int \<Rightarrow> number \<Rightarrow> trace
     \<Rightarrow> (error + MediaReleaseResult) \<times> trace"
where
  "submitRelease rt w request height target tr =
     (case createFromChainId w of
        Some err \<Rightarrow> (Inl err, tr)
      | None \<Rightarrow>
     bindE (toBigInt target, tr) (\<lambda>targetBig tr.
     bindE (toUtf8Bytes rt (JSON_stringify rt (payloadObj request)), tr) (\<lambda>payloadBytes tr.
     bindE (call Encrypt (\<lambda>h. encrypt w h payloadBytes targetBig) tr) (\<lambda>ciphertext tr.
     bindE (toUtf8Bytes rt (MediaReleaseRequest.fileCid request), tr) (\<lambda>cidBytes tr.
     bindE (call GetFeeData (getFeeData w) tr) (\<lambda>maxFeePerGas tr.
       (case maxFeePerGas of
          None \<Rightarrow> (Inl NoFeeData, tr)
        | Some fee \<Rightarrow>
            (if fee = 0 then (Inl NoFeeData, tr)
             else
     bindE (call EstimateRequestPrice (\<lambda>h. estimateRequestPriceNative w h 700000 fee) tr)
       (\<lambda>requestPrice tr.
     bindE (call SendCreateTx (\<lambda>h. createReleaseWithDirectFunding w h
              \<lparr>callbackGasLimit = 700000,
               unlockAtBlockArg = of_int targetBig,
               encCidHash = keccak256 rt cidBytes,
               conditionBytes = encodeCondition w targetBig,
               decryptionKeyCipher = encodeCiphertextToSolidity w ciphertext,
               txValue = requestPrice + (requestPrice * 100) div 100\<rparr>) tr)
       (\<lambda>hash tr.
     bindE (call WaitReceipt (\<lambda>h. waitReceipt w h hash) tr) (\<lambda>receipt tr.
       (case receipt of
          None \<Rightarrow> (Inl TxNotConfirmed, tr)
        | Some logs \<Rightarrow>
            (case findCreated w (case logs of None \<Rightarrow> [] | Some ls \<Rightarrow> ls) of
               None \<Rightarrow> (Inl CreatedEventMissing, tr)
             | Some createdLog \<Rightarrow>
                 (case parseReceiptLog w createdLog of
                    Inl err \<Rightarrow> (Inl err, tr)
                  | Inr parsed \<Rightarrow>
                      (Inr \<lparr>requestId = (case parsed of None \<Rightarrow> None
                                                        | Some pl \<Rightarrow> argRequestId pl),
                            targetBlock = targetBig,
                            createdAtBlock = height,
                            txHash = hash\<rparr>, tr)))))))))))))))"

text \<open>
  Lines 41--55: the wallet check, the height read and the range check.
  \<^verbatim>\<open>currentBlock + Number(request.blocksAhead)\<close> is an addition of two doubles.
\<close>

definition createMediaRelease ::
  "runtime \<Rightarrow> 'l wallet \<Rightarrow> MediaReleaseRequest \<Rightarrow> trace \<Rightarrow> (error + MediaReleaseResult) \<times> trace"
where
  "createMediaRelease rt w request tr =
     (if \<not> connected w then (Inl WalletNotConnected, tr)
      else
        bindE (call GetBlockNumber (blockNumber w) tr) (\<lambda>height tr.
          (let target = numAdd (Fin (of_int height)) (toNumber rt (blocksAhead request))
           in if numGreater target (of_int MAX_UINT40)
              then (Inl (TargetBlockOverflow target MAX_UINT40), tr)
              else submitRelease rt w request height target tr)))"


section \<open>CountdownEstimator: \<^verbatim>\<open>getTimeRemaining\<close>\<close>

text \<open>
  What \<^verbatim>\<open>handleCreate\<close> writes to \<^verbatim>\<open>localStorage\<close> under \<^verbatim>\<open>release_<requestId>\<close>:
  \<^verbatim>\<open>targetBlock\<close> is the decimal string of a \<^verbatim>\<open>bigint\<close> and is read back with
  \<^verbatim>\<open>Number(...)\<close>, \<^verbatim>\<open>createdAt\<close> is \<^verbatim>\<open>Date.now()\<close> in milliseconds.
\<close>

record storedRelease =
  storedTargetBlock :: int
  createdAt :: int
  storedCreatedAtBlock :: int
  storedTxHash :: string

record viewerEnv =
  hasWindow :: bool                               \<comment> \<open>\<^verbatim>\<open>typeof window !== 'undefined'\<close>\<close>
  localStorage :: "int \<Rightarrow> storedRelease option"   \<comment> \<open>the entry \<^verbatim>\<open>release_<requestId>\<close>, parsed\<close>
  dateNow :: int                                  \<comment> \<open>\<^verbatim>\<open>Date.now()\<close>\<close>

definition avgBlockSeconds :: int where
  "avgBlockSeconds = 2"

text \<open>The strings the function returns; \<open>Remaining h m s\<close> is \<^verbatim>\<open>`${pad(h)}:${pad(m)}:${pad(s)}`\<close>.\<close>

datatype countdown =
    Loading              \<comment> \<open>\<^verbatim>\<open>"Loading..."\<close>\<close>
  | Unlocked             \<comment> \<open>\<^verbatim>\<open>"Unlocked!"\<close>\<close>
  | Unknown              \<comment> \<open>\<^verbatim>\<open>"Unknown"\<close>\<close>
  | Remaining int int int

definition formatSeconds :: "int \<Rightarrow> countdown" where
  "formatSeconds totalSeconds =
     Remaining (totalSeconds div 3600) ((totalSeconds mod 3600) div 60) (totalSeconds mod 60)"

text \<open>
  Lines 241--286.  \<^verbatim>\<open>storedRelease.createdAt && storedRelease.targetBlock\<close>: the stored
  target is a non-empty string, so the test is whether an entry exists with a non-zero
  \<^verbatim>\<open>createdAt\<close>.  \<^verbatim>\<open>!release.currentBlock || !release.unlockAtBlock\<close>: \<^verbatim>\<open>undefined\<close> and a
  zero of either kind are falsy.
\<close>

definition getTimeRemaining :: "viewerEnv \<Rightarrow> MediaReleaseInfo \<Rightarrow> error + countdown" where
  "getTimeRemaining env release =
     (if \<not> hasWindow env then Inr Loading
      else
        (case (case localStorage env (MediaReleaseInfo.requestId release) of
                 None \<Rightarrow> None
               | Some sr \<Rightarrow> (if createdAt sr \<noteq> 0 then Some sr else None)) of
           Some sr \<Rightarrow>
             (let blocksAhead = storedTargetBlock sr - storedCreatedAtBlock sr;
                  estimatedUnlockTime = createdAt sr + blocksAhead * avgBlockSeconds * 1000
              in if dateNow env \<ge> estimatedUnlockTime then Inr Unlocked
                 else Inr (formatSeconds ((estimatedUnlockTime - dateNow env) div 1000)))
         | None \<Rightarrow>
             (case currentBlock release of
                None \<Rightarrow> Inr Unknown
              | Some observed \<Rightarrow>
                  (if valueOf observed = 0 \<or> valueOf (unlockAtBlock release) = 0 then Inr Unknown
                   else
                     (case js_minus (unlockAtBlock release) observed of
                        Inl err \<Rightarrow> Inl err
                      | Inr d \<Rightarrow>
                          (let blocksRemaining = valueOf d
                           in if blocksRemaining \<le> 0 then Inr Unlocked
                              else Inr (formatSeconds (blocksRemaining * avgBlockSeconds))))))))"


section \<open>ReleaseStateStore: the \<^verbatim>\<open>releases\<close> state of \<^verbatim>\<open>useMediaReleaseViewer\<close>\<close>

subsection \<open>The views the hook builds\<close>

text \<open>Lines 219--228, the object \<^verbatim>\<open>fetchReleases\<close> builds for a \<^verbatim>\<open>Created\<close> log.\<close>

definition fetchedItem ::
  "string \<Rightarrow> int \<Rightarrow> int \<Rightarrow> string \<Rightarrow> bool \<Rightarrow> string option \<Rightarrow> int \<Rightarrow> MediaReleaseInfo"
where
  "fetchedItem address rid unlock cidHash shown revData height =
     \<lparr>MediaReleaseInfo.requestId = rid, creator = address, fileCidHash = cidHash, unlockAtBlock = BigInt unlock,
      isRevealed = shown, revealed = revData, currentBlock = Some (Number height),
      isUnlocked = Some (height \<ge> unlock)\<rparr>"

text \<open>Lines 273--282, the object \<^verbatim>\<open>getReleaseById\<close> returns from \<^verbatim>\<open>metaOf\<close>.\<close>

definition releaseById ::
  "int \<Rightarrow> string \<Rightarrow> string \<Rightarrow> int \<Rightarrow> bool \<Rightarrow> string option \<Rightarrow> int \<Rightarrow> MediaReleaseInfo"
where
  "releaseById rid metaCreator metaCidHash metaUnlock metaRevealed revData height =
     \<lparr>MediaReleaseInfo.requestId = rid, creator = metaCreator, fileCidHash = metaCidHash,
      unlockAtBlock = BigInt metaUnlock, isRevealed = metaRevealed, revealed = revData,
      currentBlock = Some (Number height), isUnlocked = Some (height \<ge> metaUnlock)\<rparr>"

text \<open>Lines 444--453, the object \<^verbatim>\<open>loadFromLocalStorage\<close> builds for a stored entry.\<close>

definition localItem :: "string \<Rightarrow> int \<Rightarrow> int \<Rightarrow> MediaReleaseInfo" where
  "localItem address rid target =
     \<lparr>MediaReleaseInfo.requestId = rid, creator = address, fileCidHash = ''0x'', unlockAtBlock = BigInt target,
      isRevealed = False, revealed = None, currentBlock = None, isUnlocked = Some False\<rparr>"

subsection \<open>The state updates\<close>

text \<open>
  \<^verbatim>\<open>{ ...(old || {}), ...item }\<close>.  Every object above lists all eight keys, also those
  whose value is \<^verbatim>\<open>undefined\<close>, and the spread copies each own key of \<^verbatim>\<open>item\<close> over the
  key of \<^verbatim>\<open>old\<close>.
\<close>

definition spread :: "MediaReleaseInfo option \<Rightarrow> MediaReleaseInfo \<Rightarrow> MediaReleaseInfo" where
  "spread old item =
     (case old of
        None \<Rightarrow> item
      | Some r \<Rightarrow>
          r\<lparr>MediaReleaseInfo.requestId := MediaReleaseInfo.requestId item,
            creator := creator item,
            fileCidHash := fileCidHash item,
            unlockAtBlock := unlockAtBlock item,
            isRevealed := isRevealed item,
            revealed := revealed item,
            currentBlock := currentBlock item,
            isUnlocked := isUnlocked item\<rparr>)"

text \<open>\<^verbatim>\<open>new Map(prev.map(r => [r.requestId.toString(), r]))\<close>; the decimal string of a
  \<^verbatim>\<open>bigint\<close> identifies it, so the keys are the integers themselves.\<close>

definition byIdOf :: "MediaReleaseInfo list \<Rightarrow> (int \<times> MediaReleaseInfo) list" where
  "byIdOf prev = foldl (\<lambda>byId r. AList.update (MediaReleaseInfo.requestId r) r byId) [] prev"

text \<open>\<^verbatim>\<open>.sort((a, b) => Number(b.requestId - a.requestId))\<close>: stable, descending.\<close>

definition sortDesc :: "MediaReleaseInfo list \<Rightarrow> MediaReleaseInfo list" where
  "sortDesc rs = sort_key (\<lambda>r. - MediaReleaseInfo.requestId r) rs"

text \<open>Lines 235--241, the update in \<^verbatim>\<open>fetchReleases\<close>.\<close>

definition mergeFetched :: "MediaReleaseInfo list \<Rightarrow> MediaReleaseInfo list \<Rightarrow> MediaReleaseInfo list" where
  "mergeFetched prev newItems =
     sortDesc (map snd
       (foldl (\<lambda>byId item.
                 AList.update (MediaReleaseInfo.requestId item)
                   (spread (map_of byId (MediaReleaseInfo.requestId item)) item) byId)
              (byIdOf prev) newItems))"

text \<open>Lines 406--410, the update in \<^verbatim>\<open>checkReleaseStatus\<close>.\<close>

definition applyStatus :: "MediaReleaseInfo list \<Rightarrow> int \<Rightarrow> MediaReleaseInfo \<Rightarrow> MediaReleaseInfo list" where
  "applyStatus prev rid release =
     map (\<lambda>r. if MediaReleaseInfo.requestId r = rid then spread (Some r) release else r) prev"

text \<open>Lines 461--467, the update in \<^verbatim>\<open>loadFromLocalStorage\<close>.\<close>

definition addLocal :: "MediaReleaseInfo list \<Rightarrow> MediaReleaseInfo list \<Rightarrow> MediaReleaseInfo list" where
  "addLocal prev localReleases =
     (if length localReleases > 0 then
        sortDesc (filter (\<lambda>r. MediaReleaseInfo.requestId r \<notin> set (map MediaReleaseInfo.requestId prev))
                    localReleases @ prev)
      else prev)"

text \<open>Line 479, the update in \<^verbatim>\<open>updateCurrentBlock\<close>.\<close>

definition setCurrentBlock :: "MediaReleaseInfo list \<Rightarrow> int \<Rightarrow> MediaReleaseInfo list" where
  "setCurrentBlock prev height = map (\<lambda>r. r\<lparr>currentBlock := Some (Number height)\<rparr>) prev"

subsection \<open>Upserts of one view\<close>

text \<open>The three ways a view of a release reaches the store, and the record kept under a
  request id.\<close>

datatype upsert =
    UpsertLocal MediaReleaseInfo
  | UpsertConfirmed MediaReleaseInfo
  | UpsertRevealed MediaReleaseInfo

fun viewOf :: "upsert \<Rightarrow> MediaReleaseInfo" where
  "viewOf (UpsertLocal v) = v"
| "viewOf (UpsertConfirmed v) = v"
| "viewOf (UpsertRevealed v) = v"

fun applyUpsert :: "MediaReleaseInfo list \<Rightarrow> upsert \<Rightarrow> MediaReleaseInfo list" where
  "applyUpsert prev (UpsertLocal v) = addLocal prev [v]"
| "applyUpsert prev (UpsertConfirmed v) = mergeFetched prev [v]"
| "applyUpsert prev (UpsertRevealed v) = applyStatus prev (MediaReleaseInfo.requestId v) v"

definition getRelease :: "MediaReleaseInfo list \<Rightarrow> int \<Rightarrow> MediaReleaseInfo option" where
  "getRelease rs rid = find (\<lambda>r. MediaReleaseInfo.requestId r = rid) rs"

text \<open>Last write wins: what one upsert does to the record kept under its request id.\<close>

fun lastWrite :: "MediaReleaseInfo option \<Rightarrow> upsert \<Rightarrow> MediaReleaseInfo option" where
  "lastWrite None (UpsertLocal v) = Some v"
| "lastWrite (Some r) (UpsertLocal v) = Some r"
| "lastWrite old (UpsertConfirmed v) = Some v"
| "lastWrite None (UpsertRevealed v) = None"
| "lastWrite (Some r) (UpsertRevealed v) = Some v"


section \<open>Concrete collaborators for the examples\<close>

text \<open>
  A runtime for one reveal payload, \<^verbatim>\<open>{"k":"0a","c":"Qm"}\<close>: the text, its bytes and
  its hex form are those of the real built-ins; the hash is a stand-in value.
\<close>

definition examplePayload :: jsval where
  "examplePayload = Obj [(''k'', Str ''0a''), (''c'', Str ''Qm'')]"

definition exampleJson :: string where
  "exampleJson = [CHR ''{'', CHR 0x22, CHR ''k'', CHR 0x22, CHR '':'', CHR 0x22, CHR ''0'', CHR ''a'', CHR 0x22,
                  CHR '','', CHR 0x22, CHR ''c'', CHR 0x22, CHR '':'', CHR 0x22, CHR ''Q'', CHR ''m'', CHR 0x22,
                  CHR ''}'']"

definition exampleBytes :: bytes where
  "exampleBytes = [0x7b, 0x22, 0x6b, 0x22, 0x3a, 0x22, 0x30, 0x61, 0x22, 0x2c,
                   0x22, 0x63, 0x22, 0x3a, 0x22, 0x51, 0x6d, 0x22, 0x7d]"

definition exampleHex :: string where
  "exampleHex = ''0x7b226b223a223061222c2263223a22516d227d''"

definition exampleRuntime :: runtime where
  "exampleRuntime =
     \<lparr>JSON_parse = (\<lambda>s. if s = exampleJson then Some examplePayload else None),
      JSON_stringify = (\<lambda>v. exampleJson),
      toUtf8Bytes = (\<lambda>s. if s = exampleJson then Inr exampleBytes
                           else if s = ''Qm'' then Inr [0x51, 0x6d]
                           else Inl (External ''not in the example'')),
      toUtf8String = (\<lambda>h. if h = exampleHex then Inr exampleJson
                            else Inl (External ''not in the example'')),
      hexlify = (\<lambda>bs. exampleHex),
      keccak256 = (\<lambda>bs. ''0x11''),
      toLowerCase = (\<lambda>s. s),
      toNumber = (\<lambda>s. if s = ''1'' then Fin 1 else NaN)\<rparr>"

definition exampleRequest :: MediaReleaseRequest where
  "exampleRequest =
     \<lparr>MediaReleaseRequest.fileCid = ''Qm'', MediaReleaseRequest.decryptionKey = ''0a'',
      blocksAhead = ''1'', MediaReleaseRequest.filename = None, filetype = None, filesize = None\<rparr>"

text \<open>A release whose reveal has been observed, with an on-chain hash that is not the
  hash of the payload's locator.\<close>

definition revealedRelease :: MediaReleaseInfo where
  "revealedRelease = releaseById 7 ''0xabc'' ''0x22'' 150 True (Some exampleHex) 160"


text \<open>A gateway that serves a 3-byte frame under \<^verbatim>\<open>short\<close> and a 29-byte frame of
  version 2 under \<^verbatim>\<open>v2\<close>.\<close>

definition exampleGateway :: gateway where
  "exampleGateway =
     \<lparr>fetchCiphertext = (\<lambda>cid. if cid = Str ''short'' then Inr (Inr [1, 2, 3])
                                else if cid = Str ''v2'' then Inr (Inr (2 # replicate 28 0))
                                else Inr (Inl ''Not Found'')),
      aesGcmDecrypt = (\<lambda>key iv ct. Inl (External ''OperationError''))\<rparr>"

definition exampleMetadata :: "string \<Rightarrow> MediaMetadata" where
  "exampleMetadata cid =
     \<lparr>MediaMetadata.filename = Str ''encrypted-file'', size' = Num (Fin 0),
      type = Str ''application/octet-stream'', MediaMetadata.fileCid = Str cid,
      MediaMetadata.decryptionKey = Str ''0a'', timestamp = ''2025-01-01T00:00:00.000Z''\<rparr>"

text \<open>A browser with no stored entry for any release.\<close>

definition emptyBrowser :: viewerEnv where
  "emptyBrowser = \<lparr>hasWindow = True, localStorage = (\<lambda>rid. None), dateNow = 1700000000000\<rparr>"

definition creatorBrowser :: viewerEnv where
  "creatorBrowser =
     \<lparr>hasWindow = True,
      localStorage = (\<lambda>rid. if rid = 7 then Some \<lparr>storedTargetBlock = 150, createdAt = 1700000000000,
                                                     storedCreatedAtBlock = 100, storedTxHash = ''0xtx''\<rparr>
                              else None),
      dateNow = 1700000040000\<rparr>"

text \<open>The view \<^verbatim>\<open>fetchReleases\<close> builds for the same release once its \<^verbatim>\<open>Created\<close> log
  is more than ten blocks old: the reveal status is not looked up.\<close>

definition staleView :: MediaReleaseInfo where
  "staleView = fetchedItem ''0xabc'' 7 150 ''0x22'' False None 175"


section \<open>The built-ins of the payload round trip\<close>

text \<open>
  The reveal payload is written by \<^verbatim>\<open>JSON.stringify\<close> and \<^verbatim>\<open>ethers.toUtf8Bytes\<close> and
  read back by \<^verbatim>\<open>ethers.toUtf8String\<close> and \<^verbatim>\<open>JSON.parse\<close>.  This section computes
  these built-ins on the values the payload is made of: flat objects whose members are
  strings, whole numbers, \<^verbatim>\<open>null\<close> and booleans.  A string is a list of code units
  below 256.  Each function is \<open>None\<close> where it computes no result: on input the
  built-in rejects, and on input outside this fragment (nested values, fractions and
  exponents, code units from 256 on).
\<close>

subsection \<open>Digits\<close>

definition hexChar :: "nat \<Rightarrow> char" where
  "hexChar n = (if n < 10 then char_of (48 + n) else char_of (87 + n))"

definition hexVal :: "char \<Rightarrow> nat option" where
  "hexVal c =
     (let n = of_char c :: nat in
      if 48 \<le> n \<and> n \<le> 57 then Some (n - 48)
      else if 97 \<le> n \<and> n \<le> 102 then Some (n - 87)
      else if 65 \<le> n \<and> n \<le> 70 then Some (n - 55)
      else None)"

definition isDigit :: "char \<Rightarrow> bool" where
  "isDigit c = (48 \<le> (of_char c :: nat) \<and> (of_char c :: nat) \<le> 57)"

fun decimal :: "nat \<Rightarrow> string" where
  "decimal n = (if n < 10 then [char_of (48 + n)] else decimal (n div 10) @ [char_of (48 + n mod 10)])"

declare decimal.simps [simp del]

definition natOfDigits :: "string \<Rightarrow> nat" where
  "natOfDigits ds = foldl (\<lambda>a c. 10 * a + (of_char c - 48)) 0 ds"

definition decimalInt :: "int \<Rightarrow> string" where
  "decimalInt k = (if k < 0 then CHR ''-'' # decimal (nat (- k)) else decimal (nat k))"

subsection \<open>\<^verbatim>\<open>JSON.stringify\<close>\<close>

text \<open>\<^verbatim>\<open>QuoteJSONString\<close>: the quotation mark, the reverse solidus and the control
  characters are escaped, every other code unit is copied.\<close>

definition escapeChar :: "char \<Rightarrow> string" where
  "escapeChar c =
     (let n = of_char c :: nat in
      if n = 34 then [CHR 0x5C, CHR 0x22]
      else if n = 92 then [CHR 0x5C, CHR 0x5C]
      else if n = 8 then [CHR 0x5C, CHR ''b'']
      else if n = 12 then [CHR 0x5C, CHR ''f'']
      else if n = 10 then [CHR 0x5C, CHR ''n'']
      else if n = 13 then [CHR 0x5C, CHR ''r'']
      else if n = 9 then [CHR 0x5C, CHR ''t'']
      else if n < 32 then [CHR 0x5C, CHR ''u'', CHR ''0'', CHR ''0'', hexChar (n div 16), hexChar (n mod 16)]
      else [c])"

definition quote :: "string \<Rightarrow> string" where
  "quote s = CHR 0x22 # concat (map escapeChar s) @ [CHR 0x22]"

text \<open>A member value.  \<^verbatim>\<open>NaN\<close> and the infinities are written as \<^verbatim>\<open>null\<close>; a whole
  number below \<open>2 ^ 53\<close> is written in decimal.\<close>

fun stringifyScalar :: "jsval \<Rightarrow> string option" where
  "stringifyScalar (Str s) = Some (quote s)"
| "stringifyScalar (Num (Fin r)) =
     (if r = of_int \<lfloor>r\<rfloor> \<and> \<bar>r\<bar> < 2 ^ 53 then Some (decimalInt \<lfloor>r\<rfloor>) else None)"
| "stringifyScalar (Num x) = Some ''null''"
| "stringifyScalar Null = Some ''null''"
| "stringifyScalar (Bool b) = Some (if b then ''true'' else ''false'')"
| "stringifyScalar v = None"

text \<open>The members of an object in property order; a member that is \<^verbatim>\<open>undefined\<close> is
  left out.\<close>

fun members :: "(string \<times> jsval) list \<Rightarrow> string list option" where
  "members [] = Some []"
| "members ((k, v) # kvs) =
     (if v = Undefined then members kvs
      else (case stringifyScalar v of
              None \<Rightarrow> None
            | Some t \<Rightarrow> map_option ((#) (quote k @ CHR '':'' # t)) (members kvs)))"

fun commaSep :: "string list \<Rightarrow> string" where
  "commaSep [] = []"
| "commaSep [x] = x"
| "commaSep (x # y # zs) = x @ CHR '','' # commaSep (y # zs)"

text \<open>A key made of digits only may be an integer index, which an object lists before
  its other keys whatever the order of insertion.\<close>

definition indexLike :: "string \<Rightarrow> bool" where
  "indexLike k = (k \<noteq> [] \<and> list_all isDigit k)"

definition jsonStringify :: "jsval \<Rightarrow> string option" where
  "jsonStringify v =
     (case v of
        Obj kvs \<Rightarrow>
          (if distinct (map fst kvs) \<and> \<not> list_ex indexLike (map fst kvs) then
             (case members kvs of
                None \<Rightarrow> None
              | Some ms \<Rightarrow> Some (CHR ''{'' # commaSep ms @ [CHR ''}'']))
           else None)
      | _ \<Rightarrow> stringifyScalar v)"

subsection \<open>\<^verbatim>\<open>JSON.parse\<close>\<close>

definition isWs :: "char \<Rightarrow> bool" where
  "isWs c = ((of_char c :: nat) = 32 \<or> (of_char c :: nat) = 9 \<or> (of_char c :: nat) = 10
             \<or> (of_char c :: nat) = 13)"

definition simpleEscape :: "char \<Rightarrow> char option" where
  "simpleEscape e =
     (if e = CHR 0x22 then Some (CHR 0x22)
      else if e = CHR 0x5C then Some (CHR 0x5C)
      else if e = CHR ''/'' then Some (CHR ''/'')
      else if e = CHR ''b'' then Some (CHR 0x08)
      else if e = CHR ''f'' then Some (CHR 0x0C)
      else if e = CHR ''n'' then Some (CHR 0x0A)
      else if e = CHR ''r'' then Some (CHR 0x0D)
      else if e = CHR ''t'' then Some (CHR 0x09)
      else None)"

definition codeUnit :: "char \<Rightarrow> char \<Rightarrow> char \<Rightarrow> char \<Rightarrow> nat option" where
  "codeUnit h1 h2 h3 h4 =
     (case (hexVal h1, hexVal h2, hexVal h3, hexVal h4) of
        (Some a, Some b, Some c, Some d) \<Rightarrow> Some (((a * 16 + b) * 16 + c) * 16 + d)
      | _ \<Rightarrow> None)"

text \<open>The characters of a string after its opening quotation mark, up to the closing
  one, and the text that follows.\<close>

fun parseChars :: "string \<Rightarrow> (string \<times> string) option" where
  "parseChars [] = None"
| "parseChars (c # cs) =
     (if c = CHR 0x22 then Some ([], cs)
      else if c = CHR 0x5C then
        (case cs of
           [] \<Rightarrow> None
         | e # r \<Rightarrow>
             (if e = CHR ''u'' then
                (case r of
                   h1 # h2 # h3 # h4 # r' \<Rightarrow>
                     (case codeUnit h1 h2 h3 h4 of
                        None \<Rightarrow> None
                      | Some n \<Rightarrow>
                          (if n < 256 then
                             (case parseChars r' of
                                None \<Rightarrow> None
                              | Some (s, rest) \<Rightarrow> Some (char_of n # s, rest))
                           else None))
                 | _ \<Rightarrow> None)
              else
                (case simpleEscape e of
                   None \<Rightarrow> None
                 | Some ch \<Rightarrow>
                     (case parseChars r of
                        None \<Rightarrow> None
                      | Some (s, rest) \<Rightarrow> Some (ch # s, rest)))))
      else if (of_char c :: nat) < 32 then None
      else
        (case parseChars cs of
           None \<Rightarrow> None
         | Some (s, rest) \<Rightarrow> Some (c # s, rest)))"

text \<open>A number without fraction and exponent: an optional minus sign and digits, with
  no leading zero.\<close>

definition parseDigits :: "string \<Rightarrow> (nat \<times> string) option" where
  "parseDigits cs =
     (let ds = takeWhile isDigit cs; rest = dropWhile isDigit cs in
      if ds = [] then None
      else if hd ds = CHR ''0'' \<and> 1 < length ds then None
      else if rest \<noteq> [] \<and> (hd rest = CHR ''.'' \<or> hd rest = CHR ''e'' \<or> hd rest = CHR ''E'') then None
      else Some (natOfDigits ds, rest))"

definition parseInt :: "string \<Rightarrow> (int \<times> string) option" where
  "parseInt cs =
     (case cs of
        [] \<Rightarrow> None
      | c # r \<Rightarrow>
          (if c = CHR ''-'' then map_option (\<lambda>(n, rest). (- int n, rest)) (parseDigits r)
           else map_option (\<lambda>(n, rest). (int n, rest)) (parseDigits cs)))"

definition parseValue :: "string \<Rightarrow> (jsval \<times> string) option" where
  "parseValue cs =
     (case cs of
        [] \<Rightarrow> None
      | c # r \<Rightarrow>
          (if c = CHR 0x22 then map_option (\<lambda>(s, rest). (Str s, rest)) (parseChars r)
           else if c = CHR ''-'' \<or> isDigit c then
             map_option (\<lambda>(k, rest). (Num (roundToDouble (of_int k)), rest)) (parseInt cs)
           else if take 4 cs = ''null'' then Some (Null, drop 4 cs)
           else if take 4 cs = ''true'' then Some (Bool True, drop 4 cs)
           else if take 5 cs = ''false'' then Some (Bool False, drop 5 cs)
           else None))"

text \<open>The members of an object after its opening brace, up to the closing one.  A
  repeated key keeps its place and takes the later value.  Every member takes at least
  one character, so the length of the text is fuel enough.\<close>

fun parseMembers ::
  "nat \<Rightarrow> (string \<times> jsval) list \<Rightarrow> string \<Rightarrow> ((string \<times> jsval) list \<times> string) option"
where
  "parseMembers 0 acc cs = None"
| "parseMembers (Suc fuel) acc cs =
     (case dropWhile isWs cs of
        [] \<Rightarrow> None
      | c # r \<Rightarrow>
          (if c \<noteq> CHR 0x22 then None
           else
             (case parseChars r of
                None \<Rightarrow> None
              | Some (key, r1) \<Rightarrow>
                  (case dropWhile isWs r1 of
                     [] \<Rightarrow> None
                   | c1 # r2 \<Rightarrow>
                       (if c1 \<noteq> CHR '':'' then None
                        else
                          (case parseValue (dropWhile isWs r2) of
                             None \<Rightarrow> None
                           | Some (v, r3) \<Rightarrow>
                               (case dropWhile isWs r3 of
                                  [] \<Rightarrow> None
                                | c2 # r4 \<Rightarrow>
                                    (if c2 = CHR '','' then parseMembers fuel (AList.update key v acc) r4
                                     else if c2 = CHR ''}'' then Some (AList.update key v acc, r4)
                                     else None))))))))"

definition parseObject :: "string \<Rightarrow> ((string \<times> jsval) list \<times> string) option" where
  "parseObject r =
     (case dropWhile isWs r of
        [] \<Rightarrow> None
      | c # r1 \<Rightarrow> (if c = CHR ''}'' then Some ([], r1) else parseMembers (length r) [] r))"

definition jsonParse :: "string \<Rightarrow> jsval option" where
  "jsonParse json =
     (case dropWhile isWs json of
        [] \<Rightarrow> None
      | c # r \<Rightarrow>
          (if c = CHR ''{'' then
             (case parseObject r of
                None \<Rightarrow> None
              | Some (kvs, rest) \<Rightarrow>
                  (if dropWhile isWs rest = [] \<and> \<not> list_ex indexLike (map fst kvs)
                   then Some (Obj kvs) else None))
           else
             (case parseValue (c # r) of
                None \<Rightarrow> None
              | Some (v, rest) \<Rightarrow> (if dropWhile isWs rest = [] then Some v else None))))"

subsection \<open>UTF-8 and hexadecimal\<close>

definition utf8Encode :: "string \<Rightarrow> bytes" where
  "utf8Encode s =
     concat (map (\<lambda>c. let n = of_char c :: nat in
                        if n < 128 then [of_nat n]
                        else [of_nat (192 + n div 64), of_nat (128 + n mod 64)]) s)"

fun utf8Decode :: "bytes \<Rightarrow> string option" where
  "utf8Decode [] = Some []"
| "utf8Decode [b] = (if unat b < 128 then Some [char_of (unat b)] else None)"
| "utf8Decode (b # b2 # bs) =
     (if unat b < 128 then map_option ((#) (char_of (unat b))) (utf8Decode (b2 # bs))
      else if (unat b = 194 \<or> unat b = 195) \<and> 128 \<le> unat b2 \<and> unat b2 < 192 then
        map_option ((#) (char_of ((unat b - 192) * 64 + (unat b2 - 128)))) (utf8Decode bs)
      else None)"

definition hexEncode :: "bytes \<Rightarrow> string" where
  "hexEncode bs =
     CHR ''0'' # CHR ''x'' # concat (map (\<lambda>b. [hexChar (unat b div 16), hexChar (unat b mod 16)]) bs)"

fun hexPairs :: "string \<Rightarrow> bytes option" where
  "hexPairs [] = Some []"
| "hexPairs [h] = None"
| "hexPairs (h # l # r) =
     (case (hexVal h, hexVal l, hexPairs r) of
        (Some a, Some b, Some bs) \<Rightarrow> Some (of_nat (a * 16 + b) # bs)
      | _ \<Rightarrow> None)"

definition hexDecode :: "string \<Rightarrow> bytes option" where
  "hexDecode s =
     (case s of
        c0 # cx # r \<Rightarrow> (if c0 = CHR ''0'' \<and> cx = CHR ''x'' then hexPairs r else None)
      | _ \<Rightarrow> None)"

text \<open>A runtime that computes the five built-ins where the functions above give a
  result and is the given runtime everywhere else.\<close>

definition computed :: "runtime \<Rightarrow> runtime" where
  "computed rt =
     rt\<lparr>JSON_parse := (\<lambda>s. case jsonParse s of Some v \<Rightarrow> Some v | None \<Rightarrow> JSON_parse rt s),
        JSON_stringify := (\<lambda>v. case jsonStringify v of Some s \<Rightarrow> s | None \<Rightarrow> JSON_stringify rt v),
        toUtf8Bytes := (\<lambda>s. Inr (utf8Encode s)),
        toUtf8String :=
          (\<lambda>h. case hexDecode h of
                  None \<Rightarrow> toUtf8String rt h
                | Some bs \<Rightarrow> (case utf8Decode bs of None \<Rightarrow> toUtf8String rt h | Some s \<Rightarrow> Inr s)),
        hexlify := hexEncode\<rparr>"

text \<open>The member values that \<^verbatim>\<open>JSON.stringify\<close> writes without loss.\<close>

fun plain :: "jsval \<Rightarrow> bool" where
  "plain (Str s) = True"
| "plain (Num (Fin r)) = (r = of_int \<lfloor>r\<rfloor> \<and> \<bar>r\<bar> < 2 ^ 53)"
| "plain Null = True"
| "plain (Bool b) = True"
| "plain v = False"

text \<open>What may follow a member value: the end of the text, a comma or the closing
  brace.\<close>

definition stops :: "string \<Rightarrow> bool" where
  "stops rest = (case rest of [] \<Rightarrow> True | c # r \<Rightarrow> c = CHR '','' \<or> c = CHR ''}'')"

definition sizedRequest :: MediaReleaseRequest where
  "sizedRequest =
     \<lparr>MediaReleaseRequest.fileCid = ''Qm'', MediaReleaseRequest.decryptionKey = ''0a'',
      blocksAhead = ''1'', MediaReleaseRequest.filename = Some ''a.b'', filetype = None,
      filesize = Some (Fin 12)\<rparr>"


section \<open>Properties of the scanner\<close>

lemma fetchRanges_append: "fetchRanges (a @ b) = fetchRanges a @ fetchRanges b"
  by (induction a rule: fetchRanges.induct) simp_all

lemma warnRanges_append: "warnRanges (a @ b) = warnRanges a @ warnRanges b"
  by (induction a rule: warnRanges.induct) simp_all

lemma chunkBounds_cover:
  "0 < c \<Longrightarrow> concat (map (\<lambda>(s, e). [s..e]) (chunkBounds start toBlock c)) = [start..toBlock]"
proof (induction start toBlock c rule: chunkBounds.induct)
  case (1 start toBlock c)
  show ?case
  proof (cases "start \<le> toBlock")
    case False
    then show ?thesis by (subst chunkBounds.simps) simp
  next
    case True
    note ih = 1(1) [OF conjI [OF True 1(2)] 1(2)]
    show ?thesis
    proof (cases "start + c - 1 < toBlock")
      case True
      have "[start..toBlock] = [start..start + c - 1] @ [start + c..toBlock]"
        using upto_split2 [of start "start + c - 1" toBlock] 1(2) True by simp
      then show ?thesis
        using \<open>start \<le> toBlock\<close> 1(2) True ih by (subst chunkBounds.simps) (simp add: min_def)
    next
      case False
      then have "chunkBounds (start + c) toBlock c = []"
        by (subst chunkBounds.simps) simp
      then show ?thesis
        using \<open>start \<le> toBlock\<close> 1(2) False by (subst chunkBounds.simps) (simp add: min_def)
    qed
  qed
qed

lemma chunkBounds_size:
  "(s, e) \<in> set (chunkBounds start toBlock c)
     \<Longrightarrow> start \<le> s \<and> s \<le> e \<and> e \<le> toBlock \<and> e - s + 1 \<le> c"
proof (induction start toBlock c rule: chunkBounds.induct)
  case (1 start toBlock c)
  show ?case
  proof (cases "start \<le> toBlock \<and> 0 < c")
    case False
    with 1(2) show ?thesis by (subst (asm) chunkBounds.simps) simp
  next
    case True
    from 1(2) have "(s, e) = (start, min (start + c - 1) toBlock)
                      \<or> (s, e) \<in> set (chunkBounds (start + c) toBlock c)"
      using True by (subst (asm) chunkBounds.simps) simp
    then show ?thesis
    proof
      assume "(s, e) = (start, min (start + c - 1) toBlock)"
      then show ?thesis using True by auto
    next
      assume "(s, e) \<in> set (chunkBounds (start + c) toBlock c)"
      from 1(1) [OF True this] show ?thesis using True by simp
    qed
  qed
qed

lemma chunkBounds_distinct: "distinct (chunkBounds start toBlock c)"
proof (induction start toBlock c rule: chunkBounds.induct)
  case (1 start toBlock c)
  show ?case
  proof (cases "start \<le> toBlock \<and> 0 < c")
    case False
    then have "chunkBounds start toBlock c = []"
      by (subst chunkBounds.simps) auto
    then show ?thesis by simp
  next
    case True
    have notin: "(start, e) \<notin> set (chunkBounds (start + c) toBlock c)" for e
      using chunkBounds_size [of start e "start + c" toBlock c] True by auto
    have eq: "chunkBounds start toBlock c
                = (start, min (start + c - 1) toBlock) # chunkBounds (start + c) toBlock c"
      using True by (subst chunkBounds.simps) simp
    show ?thesis
      unfolding eq using notin 1(1) [OF True] by simp
  qed
qed

lemma chunkLoop_runs:
  assumes "0 < c"
  shows "\<exists>logs' suffix. chunkLoop p flt start toBlock c (logs, tr) = Some (logs', tr @ suffix)
           \<and> fetchRanges suffix = chunkBounds start toBlock c
           \<and> (\<forall>d. Sleep d \<notin> set suffix)
           \<and> logs' = logs @ answered p flt tr suffix
           \<and> warnRanges suffix = refused p flt tr suffix"
proof (induction "nat (toBlock - start + 1)" arbitrary: start logs tr rule: less_induct)
  case less
  show ?case
  proof (cases "start \<le> toBlock")
    case False
    then have "chunkLoop p flt start toBlock c (logs, tr) = Some (logs, tr @ [])"
      by (simp add: chunkLoop.simps)
    moreover have "chunkBounds start toBlock c = []"
      using False by (simp add: chunkBounds.simps)
    ultimately show ?thesis
      by (intro exI [of _ logs] exI [of _ "[]"]) simp
  next
    case True
    define e where "e = min (start + c - 1) toBlock"
    have m: "nat (toBlock - (start + c) + 1) < nat (toBlock - start + 1)"
      using True assms by simp
    have cb: "chunkBounds start toBlock c = (start, e) # chunkBounds (start + c) toBlock c"
      using True assms by (subst chunkBounds.simps) (simp add: e_def)
    show ?thesis
    proof (cases "getLogs p tr flt start e")
      case (Inl err)
      from less [OF m, of logs "tr @ [GetLogs start e, Warn start e]"]
      obtain logs' suffix where h:
        "chunkLoop p flt (start + c) toBlock c (logs, tr @ [GetLogs start e, Warn start e])
           = Some (logs', (tr @ [GetLogs start e, Warn start e]) @ suffix)"
        "fetchRanges suffix = chunkBounds (start + c) toBlock c"
        "\<forall>d. Sleep d \<notin> set suffix"
        "logs' = logs @ answered p flt (tr @ [GetLogs start e, Warn start e]) suffix"
        "warnRanges suffix = refused p flt (tr @ [GetLogs start e, Warn start e]) suffix"
        by blast
      have "chunkLoop p flt start toBlock c (logs, tr)
              = Some (logs', tr @ (GetLogs start e # Warn start e # suffix))"
        using True Inl h(1) by (subst chunkLoop.simps) (simp add: e_def [symmetric])
      then show ?thesis
        using h(2-5) cb Inl
        by (intro exI [of _ logs'] exI [of _ "GetLogs start e # Warn start e # suffix"]) simp
    next
      case (Inr chunkLogs)
      from less [OF m, of "logs @ chunkLogs" "tr @ [GetLogs start e]"]
      obtain logs' suffix where h:
        "chunkLoop p flt (start + c) toBlock c (logs @ chunkLogs, tr @ [GetLogs start e])
           = Some (logs', (tr @ [GetLogs start e]) @ suffix)"
        "fetchRanges suffix = chunkBounds (start + c) toBlock c"
        "\<forall>d. Sleep d \<notin> set suffix"
        "logs' = (logs @ chunkLogs) @ answered p flt (tr @ [GetLogs start e]) suffix"
        "warnRanges suffix = refused p flt (tr @ [GetLogs start e]) suffix"
        by blast
      have "chunkLoop p flt start toBlock c (logs, tr)
              = Some (logs', tr @ (GetLogs start e # suffix))"
        using True Inr h(1) by (subst chunkLoop.simps) (simp add: e_def [symmetric])
      then show ?thesis
        using h(2-5) cb Inr
        by (intro exI [of _ logs'] exI [of _ "GetLogs start e # suffix"]) simp
    qed
  qed
qed

lemma getLogsChunked_runs:
  assumes "0 < c"
  shows "\<exists>logs tr'. getLogsChunked (Some p) flt fromBlock toBlock c [] = Some (Inr logs, tr')
           \<and> fetchRanges tr' = chunkBounds fromBlock toBlock c
           \<and> (\<forall>d. Sleep d \<notin> set tr')
           \<and> logs = answered p flt [] tr'
           \<and> warnRanges tr' = refused p flt [] tr'"
proof -
  from chunkLoop_runs [OF assms, of p flt fromBlock toBlock "[]" "[]"]
  obtain logs' suffix where h:
    "chunkLoop p flt fromBlock toBlock c ([], []) = Some (logs', [] @ suffix)"
    "fetchRanges suffix = chunkBounds fromBlock toBlock c"
    "\<forall>d. Sleep d \<notin> set suffix"
    "logs' = [] @ answered p flt [] suffix"
    "warnRanges suffix = refused p flt [] suffix"
    by blast
  have "getLogsChunked (Some p) flt fromBlock toBlock c [] = Some (Inr logs', suffix)"
    using h(1) by (simp add: getLogsChunked_def)
  then show ?thesis using h(2-5) by auto
qed

lemma chunkBounds_37: "chunkBounds w (w + 36) 10 = [(w, w + 9), (w + 10, w + 19), (w + 20, w + 29), (w + 30, w + 36)]"
  by (simp add: chunkBounds.simps)

subsection \<open>Chunking\<close>

text \<open>
  Claim C6.  For a window \<open>[fromBlock, toBlock]\<close> with \<open>fromBlock \<le> toBlock\<close> and a chunk
  size \<open>c > 0\<close>, \<^verbatim>\<open>getLogsChunked\<close> returns, and the ranges it requested, taken in the
  order of the requests, enumerate exactly the blocks \<open>fromBlock, ..., toBlock\<close> once each
  (sequential, covering, no overlap), each range holding at least one and at most \<open>c\<close>
  blocks.  A window of 37 blocks starting at \<open>w\<close> with chunk size 10 issues exactly the
  four requests \<open>[w, w+9], [w+10, w+19], [w+20, w+29], [w+30, w+36]\<close>.
\<close>

theorem getLogsChunked_covers_window:
  assumes "fromBlock \<le> toBlock" and "0 < c"
  shows "(\<exists>logs tr'. getLogsChunked (Some p) flt fromBlock toBlock c [] = Some (Inr logs, tr')
            \<and> concat (map (\<lambda>(s, e). [s..e]) (fetchRanges tr')) = [fromBlock..toBlock]
            \<and> (\<forall>(s, e) \<in> set (fetchRanges tr'). s \<le> e \<and> e - s + 1 \<le> c))
       \<and> (\<exists>logs tr'. getLogsChunked (Some p) flt w (w + 36) 10 [] = Some (Inr logs, tr')
            \<and> fetchRanges tr' = [(w, w + 9), (w + 10, w + 19), (w + 20, w + 29), (w + 30, w + 36)])"
proof
  from getLogsChunked_runs [OF assms(2), of p flt fromBlock toBlock]
  obtain logs tr' where h:
    "getLogsChunked (Some p) flt fromBlock toBlock c [] = Some (Inr logs, tr')"
    "fetchRanges tr' = chunkBounds fromBlock toBlock c"
    by blast
  have "concat (map (\<lambda>(s, e). [s..e]) (fetchRanges tr')) = [fromBlock..toBlock]"
    using h(2) chunkBounds_cover [OF assms(2)] by simp
  moreover have "\<forall>(s, e) \<in> set (fetchRanges tr'). s \<le> e \<and> e - s + 1 \<le> c"
    using h(2) chunkBounds_size by fastforce
  ultimately show "\<exists>logs tr'. getLogsChunked (Some p) flt fromBlock toBlock c [] = Some (Inr logs, tr')
            \<and> concat (map (\<lambda>(s, e). [s..e]) (fetchRanges tr')) = [fromBlock..toBlock]
            \<and> (\<forall>(s, e) \<in> set (fetchRanges tr'). s \<le> e \<and> e - s + 1 \<le> c)"
    using h(1) by blast
next
  have "(0::int) < 10" by simp
  from getLogsChunked_runs [OF this, of p flt w "w + 36"]
  show "\<exists>logs tr'. getLogsChunked (Some p) flt w (w + 36) 10 [] = Some (Inr logs, tr')
            \<and> fetchRanges tr' = [(w, w + 9), (w + 10, w + 19), (w + 20, w + 29), (w + 30, w + 36)]"
    by (auto simp: chunkBounds_37)
qed

theorem getLogsChunked_covers_window_witness:
  "(0::int) \<le> 36 \<and> (0::int) < 10
   \<and> (\<exists>logs tr'. getLogsChunked (Some steadyProvider) (RevealedFilter 1) 0 36 10 [] = Some (Inr logs, tr')
         \<and> concat (map (\<lambda>(s, e). [s..e]) (fetchRanges tr')) = [0..36]
         \<and> fetchRanges tr' = [(0, 9), (10, 19), (20, 29), (30, 36)])"
proof -
  have a: "(0::int) \<le> 36" and b: "(0::int) < 10" by simp_all
  from getLogsChunked_covers_window [OF a b, of steadyProvider "RevealedFilter 1" 0]
  obtain logs tr' where h:
    "getLogsChunked (Some steadyProvider) (RevealedFilter 1) 0 36 10 [] = Some (Inr logs, tr')"
    "concat (map (\<lambda>(s, e). [s..e]) (fetchRanges tr')) = [0..36]"
    by blast
  from getLogsChunked_covers_window [OF a b, of steadyProvider "RevealedFilter 1" 0]
  obtain logs2 tr2 where h2:
    "getLogsChunked (Some steadyProvider) (RevealedFilter 1) 0 (0 + 36) 10 [] = Some (Inr logs2, tr2)"
    "fetchRanges tr2 = [(0, 0 + 9), (0 + 10, 0 + 19), (0 + 20, 0 + 29), (0 + 30, 0 + 36)]"
    by blast
  from h(1) h2(1) have "tr2 = tr'" by simp
  with h h2(2) a b show ?thesis by simp
qed

subsection \<open>The retry helper\<close>

text \<open>With its defaults, \<^verbatim>\<open>withRetry\<close> makes at most two attempts, 500 ms apart, and
  throws the error of the second.  \<^verbatim>\<open>fetchReleases\<close> wraps the height read and
  \<^verbatim>\<open>metaOf\<close> in it; \<^verbatim>\<open>getLogsChunked\<close> does not use it.\<close>

lemma withRetry_two_attempts:
  "withRetry fn 2 500 tr =
     (case fn tr of
        (Inr v, tr1) \<Rightarrow> (Inr v, tr1)
      | (Inl e1, tr1) \<Rightarrow>
          (case fn (tr1 @ [Sleep 500]) of
             (Inr v, tr2) \<Rightarrow> (Inr v, tr2)
           | (Inl e2, tr2) \<Rightarrow> (Inl e2, tr2)))"
  by (simp add: withRetry_def split: prod.splits sum.splits)

subsection \<open>Failed chunks\<close>

text \<open>
  Claim C4 as stated fails: a chunk fetch is not retried.  Against a provider that refuses
  each range once and would answer the second request, the scan over \<open>[0, 19]\<close> with
  chunk size 10 asks for each chunk a single time, warns, and returns no log.
\<close>

theorem getLogsChunked_skips_without_retry:
  "getLogsChunked (Some flakyProvider) (RevealedFilter 1) 0 19 10 []
     = Some (Inr [], [GetLogs 0 9, Warn 0 9, GetLogs 10 19, Warn 10 19])
   \<and> getLogs flakyProvider [GetLogs 0 9, Warn 0 9] (RevealedFilter 1) 0 9 = Inr [7]"
  by (simp add: getLogsChunked_def chunkLoop.simps flakyProvider_def)

text \<open>
  Claim C4, amended.  For a chunk size \<open>c > 0\<close> and any provider, also one whose answers
  change over time, \<^verbatim>\<open>getLogsChunked\<close> returns normally (it never aborts on a failed
  chunk); the requested ranges cover the window and no range is requested twice, and the
  scan never sleeps: every chunk is attempted exactly once.  The result is the
  concatenation, in order, of what the provider answered to those single requests, a
  refused request contributing nothing, and the warnings are exactly the refused
  requests, in order.
\<close>

theorem getLogsChunked_single_attempt:
  assumes "0 < c"
  shows "\<exists>logs tr'. getLogsChunked (Some p) flt fromBlock toBlock c [] = Some (Inr logs, tr')
           \<and> concat (map (\<lambda>(s, e). [s..e]) (fetchRanges tr')) = [fromBlock..toBlock]
           \<and> distinct (fetchRanges tr')
           \<and> (\<forall>d. Sleep d \<notin> set tr')
           \<and> logs = answered p flt [] tr'
           \<and> warnRanges tr' = refused p flt [] tr'"
proof -
  from getLogsChunked_runs [OF assms, of p flt fromBlock toBlock]
  obtain logs tr' where h:
    "getLogsChunked (Some p) flt fromBlock toBlock c [] = Some (Inr logs, tr')"
    "fetchRanges tr' = chunkBounds fromBlock toBlock c"
    "\<forall>d. Sleep d \<notin> set tr'"
    "logs = answered p flt [] tr'"
    "warnRanges tr' = refused p flt [] tr'"
    by blast
  have "concat (map (\<lambda>(s, e). [s..e]) (fetchRanges tr')) = [fromBlock..toBlock]"
    unfolding h(2) by (rule chunkBounds_cover [OF assms])
  moreover have "distinct (fetchRanges tr')"
    unfolding h(2) by (rule chunkBounds_distinct)
  ultimately show ?thesis using h(1,3,4,5) by blast
qed

theorem getLogsChunked_single_attempt_witness:
  "(0::int) < 10
   \<and> getLogsChunked (Some patchyProvider) (RevealedFilter 1) 0 36 10 []
       = Some (Inr [0, 20, 30],
               [GetLogs 0 9, GetLogs 10 19, Warn 10 19, GetLogs 20 29, GetLogs 30 36])
   \<and> getLogs patchyProvider [GetLogs 0 9, GetLogs 10 19, Warn 10 19] (RevealedFilter 1) 10 19
       = Inr [10]
   \<and> answered patchyProvider (RevealedFilter 1) []
        [GetLogs 0 9, GetLogs 10 19, Warn 10 19, GetLogs 20 29, GetLogs 30 36] = [0, 20, 30]
   \<and> refused patchyProvider (RevealedFilter 1) []
        [GetLogs 0 9, GetLogs 10 19, Warn 10 19, GetLogs 20 29, GetLogs 30 36] = [(10, 19)]
   \<and> warnRanges [GetLogs 0 9, GetLogs 10 19, Warn 10 19, GetLogs 20 29, GetLogs 30 36] = [(10, 19)]
   \<and> distinct (fetchRanges [GetLogs 0 9, GetLogs 10 19, Warn 10 19, GetLogs 20 29, GetLogs 30 36])"
proof -
  have c: "(0::int) < 10" by simp
  have run: "getLogsChunked (Some patchyProvider) (RevealedFilter 1) 0 36 10 []
       = Some (Inr [0, 20, 30],
               [GetLogs 0 9, GetLogs 10 19, Warn 10 19, GetLogs 20 29, GetLogs 30 36])"
    by (simp add: getLogsChunked_def chunkLoop.simps patchyProvider_def)
  have again: "getLogs patchyProvider [GetLogs 0 9, GetLogs 10 19, Warn 10 19] (RevealedFilter 1) 10 19
       = Inr [10]"
    by (simp add: patchyProvider_def)
  from getLogsChunked_single_attempt [OF c, of patchyProvider "RevealedFilter 1" 0 36]
  obtain logs tr' where h:
    "getLogsChunked (Some patchyProvider) (RevealedFilter 1) 0 36 10 [] = Some (Inr logs, tr')"
    "distinct (fetchRanges tr')"
    "logs = answered patchyProvider (RevealedFilter 1) [] tr'"
    "warnRanges tr' = refused patchyProvider (RevealedFilter 1) [] tr'"
    by blast
  from h(1) run have "logs = [0, 20, 30]"
    and "tr' = [GetLogs 0 9, GetLogs 10 19, Warn 10 19, GetLogs 20 29, GetLogs 30 36]"
    by simp_all
  with h(2,3,4) c run again show ?thesis by simp
qed

subsection \<open>The scan-window guard\<close>

text \<open>
  Claim C5.  With a target block given, whenever the current chain height is below
  \<open>target - PREFETCH_BLOCKS_BEFORE\<close>, \<^verbatim>\<open>fetchRevealedPayload\<close> returns \<^verbatim>\<open>null\<close>
  (``not yet'') and no log fetch is issued.
\<close>

theorem fetchRevealedPayload_not_yet:
  assumes "readProv sc = Some p"
    and "getBlockNumber p [] = Inr height"
    and "height < target - PREFETCH_BLOCKS_BEFORE sc"
  shows "\<exists>tr'. fetchRevealedPayload sc rid (Some target) [] = Some (Inr None, tr')
           \<and> fetchRanges tr' = []"
  using assms by (simp add: fetchRevealedPayload_def)

theorem fetchRevealedPayload_not_yet_witness:
  "readProv steadyScanner = Some steadyProvider
   \<and> getBlockNumber steadyProvider [] = Inr 100
   \<and> (100::int) < 150 - PREFETCH_BLOCKS_BEFORE steadyScanner
   \<and> (\<exists>tr'. fetchRevealedPayload steadyScanner 7 (Some 150) [] = Some (Inr None, tr')
         \<and> fetchRanges tr' = [])"
proof -
  have a: "readProv steadyScanner = Some steadyProvider" by (simp add: steadyScanner_def)
  have b: "getBlockNumber steadyProvider [] = Inr 100" by (simp add: steadyProvider_def)
  have c: "(100::int) < 150 - PREFETCH_BLOCKS_BEFORE steadyScanner" by (simp add: steadyScanner_def)
  from fetchRevealedPayload_not_yet [OF a b c, of 7] a b c show ?thesis by simp
qed


section \<open>Properties of the ciphertext decoding\<close>

text \<open>
  Claim C8.  A frame shorter than \<open>1 + 12 + 16\<close> bytes is refused with
  \<open>CiphertextMalformed\<close> (\<^verbatim>\<open>Ciphertext too short\<close>), and a frame of at least that length
  whose first byte is not 1 is refused with \<open>UnsupportedVersion\<close>
  (\<^verbatim>\<open>Unsupported ciphertext version\<close>).  For metadata with a locator whose ciphertext the
  gateway serves, \<^verbatim>\<open>downloadDecryptedFile\<close> throws that error and
  \<^verbatim>\<open>createMediaPreviewUrl\<close> returns \<^verbatim>\<open>null\<close>.
\<close>

theorem decode_rejects_malformed_frames:
  assumes "truthy (MediaMetadata.fileCid metadata)"
    and "fetchCiphertext gw (MediaMetadata.fileCid metadata) = Inr (Inr frame)"
  shows "(length frame < 1 + 12 + 16 \<longrightarrow>
            decodeCiphertext gw key frame = Inl CiphertextMalformed
          \<and> downloadDecryptedFile gw metadata = Inl CiphertextMalformed
          \<and> createMediaPreviewUrl gw metadata = None)
       \<and> (1 + 12 + 16 \<le> length frame \<and> hd frame \<noteq> 1 \<longrightarrow>
            decodeCiphertext gw key frame = Inl UnsupportedVersion
          \<and> downloadDecryptedFile gw metadata = Inl UnsupportedVersion
          \<and> createMediaPreviewUrl gw metadata = None)"
  using assms
  by (simp add: decodeCiphertext_def downloadDecryptedFile_def createMediaPreviewUrl_def
      fetchAndDecode_def)

theorem decode_rejects_malformed_frames_witness:
  "truthy (MediaMetadata.fileCid (exampleMetadata ''short''))
   \<and> fetchCiphertext exampleGateway (MediaMetadata.fileCid (exampleMetadata ''short'')) = Inr (Inr [1, 2, 3])
   \<and> length [1, 2, 3 :: 8 word] < 1 + 12 + 16
   \<and> decodeCiphertext exampleGateway (Str ''0a'') [1, 2, 3] = Inl CiphertextMalformed
   \<and> downloadDecryptedFile exampleGateway (exampleMetadata ''short'') = Inl CiphertextMalformed
   \<and> createMediaPreviewUrl exampleGateway (exampleMetadata ''short'') = None
   \<and> truthy (MediaMetadata.fileCid (exampleMetadata ''v2''))
   \<and> fetchCiphertext exampleGateway (MediaMetadata.fileCid (exampleMetadata ''v2'')) = Inr (Inr (2 # replicate 28 0))
   \<and> 1 + 12 + 16 \<le> length (2 # replicate 28 (0 :: 8 word))
   \<and> hd (2 # replicate 28 (0 :: 8 word)) \<noteq> 1
   \<and> decodeCiphertext exampleGateway (Str ''0a'') (2 # replicate 28 0) = Inl UnsupportedVersion
   \<and> downloadDecryptedFile exampleGateway (exampleMetadata ''v2'') = Inl UnsupportedVersion
   \<and> createMediaPreviewUrl exampleGateway (exampleMetadata ''v2'') = None"
proof -
  have a1: "truthy (MediaMetadata.fileCid (exampleMetadata ''short''))"
    by (simp add: exampleMetadata_def)
  have b1: "fetchCiphertext exampleGateway (MediaMetadata.fileCid (exampleMetadata ''short'')) = Inr (Inr [1, 2, 3])"
    by (simp add: exampleMetadata_def exampleGateway_def)
  have a2: "truthy (MediaMetadata.fileCid (exampleMetadata ''v2''))"
    by (simp add: exampleMetadata_def)
  have b2: "fetchCiphertext exampleGateway (MediaMetadata.fileCid (exampleMetadata ''v2'')) = Inr (Inr (2 # replicate 28 0))"
    by (simp add: exampleMetadata_def exampleGateway_def)
  from decode_rejects_malformed_frames [OF a1 b1, of "Str ''0a''"]
       decode_rejects_malformed_frames [OF a2 b2, of "Str ''0a''"] a1 b1 a2 b2
  show ?thesis by simp
qed

section \<open>Properties of the creation request\<close>

subsection \<open>Rounding to a double\<close>

lemma roundHalfEven_of_int [simp]: "roundHalfEven (of_int k) = k"
  by (simp add: roundHalfEven_def)

lemma roundHalfEven_near:
  assumes "of_int k \<le> t" and "t < of_int k + 1 / 2"
  shows "roundHalfEven t = k"
proof -
  have "\<lfloor>t\<rfloor> = k" using assms by linarith
  then show ?thesis using assms by (simp add: roundHalfEven_def)
qed

lemma binade_bounds:
  assumes "0 < x" and "2 ^ n \<le> x" and "x < 2 ^ Suc n"
  shows "\<lfloor>log 2 x\<rfloor> = int n"
proof -
  have "2 powr real n \<le> x" using assms(2) by (simp add: powr_realpow)
  then have a: "real n \<le> log 2 x" using assms(1) by (simp add: le_log_iff)
  have "x < 2 powr (real n + 1)" using assms(3) by (simp add: powr_realpow powr_add)
  then have b: "log 2 x < real n + 1" using assms(1) by (simp add: log_less_iff)
  from a b show ?thesis by linarith
qed

text \<open>Integers of magnitude below \<open>2^53\<close> are doubles: rounding leaves them as they are.\<close>

lemma roundToDouble_int:
  assumes "\<bar>k\<bar> < 2 ^ 53"
  shows "roundToDouble (of_int k) = Fin (of_int k)"
proof (cases "k = 0")
  case True
  then show ?thesis by (simp add: roundToDouble_def)
next
  case False
  define x :: real where "x = of_int k"
  have x1: "1 \<le> \<bar>x\<bar>" using False by (simp add: x_def)
  have x2: "\<bar>x\<bar> < 2 ^ 53" using assms unfolding x_def
    by (metis of_int_abs of_int_less_numeral_power_cancel_iff)
  define e where "e = \<lfloor>log 2 \<bar>x\<bar>\<rfloor>"
  have "0 \<le> log 2 \<bar>x\<bar>" using x1 by simp
  then have e0: "0 \<le> e" by (simp add: e_def)
  have "\<bar>x\<bar> < 2 powr 53" using x2 by simp
  then have "log 2 \<bar>x\<bar> < 53" using x1 by (simp add: log_less_iff)
  then have e52: "e \<le> 52" unfolding e_def by linarith
  define d where "d = nat (52 - e)"
  have q: "(2::real) powr of_int (e - 52) = 1 / 2 ^ d"
  proof -
    have "(of_int (e - 52) :: real) = - real d" using e52 by (simp add: d_def)
    then have "(2::real) powr of_int (e - 52) = 2 powr (- real d)" by simp
    also have "\<dots> = inverse (2 powr real d)" by (rule powr_minus)
    also have "\<dots> = 1 / 2 ^ d" by (simp add: powr_realpow inverse_eq_divide)
    finally show ?thesis .
  qed
  have m: "max e (- 1022) = e" using e0 by simp
  have div: "x / (1 / 2 ^ d) = of_int (k * 2 ^ d)" by (simp add: x_def)
  have y: "of_int (roundHalfEven (x / (1 / 2 ^ d))) * (1 / 2 ^ d) = x"
    unfolding div roundHalfEven_of_int by (simp add: x_def)
  have small: "\<not> (2::real) ^ 1024 \<le> \<bar>x\<bar>"
  proof -
    have "(2::real) ^ 53 \<le> 2 ^ 1024" by (rule power_increasing) simp_all
    with x2 show ?thesis by linarith
  qed
  have "roundToDouble x = Fin x"
    using x1 small unfolding roundToDouble_def e_def [symmetric] m Let_def q y by auto
  then show ?thesis by (simp add: x_def)
qed

text \<open>Just below \<open>2^40\<close> the doubles are \<open>2^-13\<close> apart: adding less than half of that to
  \<open>2^40 - 1\<close> rounds back to \<open>2^40 - 1\<close>.\<close>

lemma roundToDouble_below_next:
  assumes "0 \<le> d" and "d < 1 / 2 ^ 14"
  shows "roundToDouble (2 ^ 40 - 1 + d) = Fin (2 ^ 40 - 1)"
proof -
  define x :: real where "x = 2 ^ 40 - 1 + d"
  have pos: "0 < x" using assms by (simp add: x_def)
  have lo: "2 ^ 39 \<le> x" using assms by (simp add: x_def)
  have hi: "x < 2 ^ Suc 39" using assms by (simp add: x_def)
  have e: "\<lfloor>log 2 \<bar>x\<bar>\<rfloor> = 39" using binade_bounds [OF pos lo hi] pos by simp
  have "(2::real) powr - 13 = inverse (2 powr 13)" by (rule powr_minus)
  then have q: "(2::real) powr of_int (max 39 (- 1022) - 52) = 1 / 2 ^ 13"
    by (simp add: inverse_eq_divide)
  have t: "x / (1 / 2 ^ 13) = of_int ((2 ^ 40 - 1) * 2 ^ 13) + d * 2 ^ 13"
    by (simp add: x_def algebra_simps)
  have r: "roundHalfEven (x / (1 / 2 ^ 13)) = (2 ^ 40 - 1) * 2 ^ 13"
    unfolding t using assms by (intro roundHalfEven_near) (simp_all add: field_simps)
  have "roundToDouble x = Fin (2 ^ 40 - 1)"
    using pos unfolding roundToDouble_def e Let_def q r by simp
  then show ?thesis by (simp add: x_def)
qed


subsection \<open>The range check\<close>




text \<open>A fraction of a block ahead at the last height a \<^verbatim>\<open>uint40\<close> holds is lost in the
  addition: the target is \<open>2^40 - 1\<close> again and the request goes on to be submitted.\<close>

lemma createMediaRelease_fraction_not_rejected:
  assumes "connected w"
    and "blockNumber w [] = Inr (2 ^ 40 - 1)"
    and "toNumber rt (blocksAhead request) = Fin d" and "0 \<le> d" and "d < 1 / 2 ^ 14"
  shows "createMediaRelease rt w request []
           = submitRelease rt w request (2 ^ 40 - 1) (Fin (2 ^ 40 - 1)) [GetBlockNumber]"
  using assms roundToDouble_below_next [OF assms(4,5)]
  by (simp add: createMediaRelease_def bindE_def call_def Let_def MAX_UINT40_def)

section \<open>Properties of the countdown\<close>

text \<open>The wall-clock strategy: used whenever the stored entry carries the creation time,
  with the sentinel once the estimated unlock time is reached.\<close>

lemma getTimeRemaining_wall_clock:
  assumes "hasWindow env"
    and "localStorage env (MediaReleaseInfo.requestId release) = Some sr"
    and "createdAt sr \<noteq> 0"
  shows "getTimeRemaining env release
           = Inr (let estimatedUnlockTime =
                        createdAt sr + (storedTargetBlock sr - storedCreatedAtBlock sr) * avgBlockSeconds * 1000
                  in if dateNow env \<ge> estimatedUnlockTime then Unlocked
                     else formatSeconds ((estimatedUnlockTime - dateNow env) div 1000))"
  using assms by (simp add: getTimeRemaining_def Let_def)

lemma getTimeRemaining_wall_clock_example:
  "getTimeRemaining creatorBrowser (localItem ''0xabc'' 7 150) = Inr (Remaining 0 1 0)"
  by (simp add: getTimeRemaining_def creatorBrowser_def localItem_def avgBlockSeconds_def
      formatSeconds_def)

text \<open>The block-count strategy on two heights of the same kind: \<open>max 0 (unlock - current)\<close>
  blocks at \<open>avgBlockSeconds\<close> each, with the sentinel at zero.\<close>

lemma getTimeRemaining_block_count_same_kind:
  assumes "hasWindow env"
    and "localStorage env (MediaReleaseInfo.requestId release) = None"
    and "unlockAtBlock release = BigInt u" and "currentBlock release = Some (BigInt c)"
    and "u \<noteq> 0" and "c \<noteq> 0"
  shows "getTimeRemaining env release
           = Inr (if max 0 (u - c) * avgBlockSeconds = 0 then Unlocked
                  else formatSeconds (max 0 (u - c) * avgBlockSeconds))"
  using assms by (auto simp: getTimeRemaining_def avgBlockSeconds_def)

text \<open>The records of the store carry \<^verbatim>\<open>unlockAtBlock\<close> as a \<^verbatim>\<open>bigint\<close> and
  \<^verbatim>\<open>currentBlock\<close> as a \<^verbatim>\<open>number\<close>; on them the subtraction throws.\<close>

lemma getTimeRemaining_block_count_mixed:
  assumes "hasWindow env"
    and "localStorage env (MediaReleaseInfo.requestId release) = None"
    and "unlockAtBlock release = BigInt u" and "currentBlock release = Some (Number c)"
    and "u \<noteq> 0" and "c \<noteq> 0"
  shows "getTimeRemaining env release
           = Inl (TypeError ''Cannot mix BigInt and other types, use explicit conversions'')"
  using assms by (simp add: getTimeRemaining_def)

text \<open>
  Claim C9.  The countdown uses the wall-clock strategy when the creation time and target
  block are stored, otherwise the block-count strategy
  \<open>max 0 (unlockAtBlock - currentBlock) * avgBlockSeconds\<close>, each returning the sentinel at
  zero.  The code departs from this on the block-count side: for a release fetched from a
  \<^verbatim>\<open>Created\<close> log (unlock block 150, observed block 100) in a browser that holds no
  stored entry for it, \<^verbatim>\<open>getTimeRemaining\<close> throws a \<^verbatim>\<open>TypeError\<close> instead of returning
  the 100 seconds the strategy prescribes.
\<close>

theorem getTimeRemaining_block_count_throws:
  "getTimeRemaining emptyBrowser (fetchedItem ''0xabc'' 7 150 ''0x22'' False None 100)
     = Inl (TypeError ''Cannot mix BigInt and other types, use explicit conversions'')"
  by (simp add: getTimeRemaining_def emptyBrowser_def fetchedItem_def)


section \<open>Properties of the reveal verifier and of the payload\<close>

lemma truthy_getProp_obj: "truthy (getProp payload key) \<Longrightarrow> truthy payload"
  by (cases payload) simp_all

lemma parseRevealed_keccak [simp]:
  "parseRevealed (rt\<lparr>keccak256 := h\<rparr>) revealedData = parseRevealed rt revealedData"
  by (simp add: parseRevealed_def split: sum.splits)

text \<open>
  Claim C10.  When \<^verbatim>\<open>decryptMetadata\<close> is called without a release, or with one whose
  \<^verbatim>\<open>fileCidHash\<close> is empty, every payload with truthy \<^verbatim>\<open>k\<close> and \<^verbatim>\<open>c\<close> is returned as
  metadata, and the result does not depend on the hash function: no comparison with the
  stored \<^verbatim>\<open>fileCidHash\<close> is made.  The viewer (\<^verbatim>\<open>handleReleaseSelect\<close>) calls it in exactly
  this way, without a release.
\<close>

theorem decryptMetadata_without_release_accepts:
  assumes "parseRevealed rt revealedData = Inr (json, payload)"
    and "truthy (getProp payload ''k'')"
    and "truthy (getProp payload ''c'')"
    and "release = None \<or> (\<exists>r. release = Some r \<and> fileCidHash r = [])"
  shows "decryptMetadata rt revealedData release now
           = Some \<lparr>MediaMetadata.filename = orElse (getProp payload ''n'') (Str ''encrypted-file''),
                   size' = orElse (getProp payload ''s'') (Num (Fin 0)),
                   type = orElse (getProp payload ''t'') (Str ''application/octet-stream''),
                   MediaMetadata.fileCid = getProp payload ''c'',
                   MediaMetadata.decryptionKey = getProp payload ''k'',
                   timestamp = now\<rparr>
       \<and> decryptMetadata (rt\<lparr>keccak256 := h\<rparr>) revealedData release now
           = decryptMetadata rt revealedData release now
       \<and> (isRevealed shown \<and> revealed shown = Some revealedData \<and> revealedData \<noteq> [] \<longrightarrow>
            handleReleaseSelect rt shown now = decryptMetadata rt revealedData None now)"
proof -
  have p: "truthy payload" using assms(2) by (rule truthy_getProp_obj)
  have c: "checkCidHash rt' (getProp payload ''c'') release = Inr ()" for rt'
    using assms(4) by (auto simp: checkCidHash_def)
  have "decryptMetadata rt' revealedData release now
           = Some \<lparr>MediaMetadata.filename = orElse (getProp payload ''n'') (Str ''encrypted-file''),
                   size' = orElse (getProp payload ''s'') (Num (Fin 0)),
                   type = orElse (getProp payload ''t'') (Str ''application/octet-stream''),
                   MediaMetadata.fileCid = getProp payload ''c'',
                   MediaMetadata.decryptionKey = getProp payload ''k'',
                   timestamp = now\<rparr>"
    if "parseRevealed rt' revealedData = Inr (json, payload)" for rt'
    using that p assms(2,3) c [of rt'] by (simp add: decryptMetadata_def)
  from this [of rt] this [of "rt\<lparr>keccak256 := h\<rparr>"] assms(1)
  show ?thesis by (simp add: handleReleaseSelect_def)
qed

theorem decryptMetadata_without_release_accepts_witness:
  "parseRevealed exampleRuntime exampleHex = Inr (exampleJson, examplePayload)
   \<and> truthy (getProp examplePayload ''k'')
   \<and> truthy (getProp examplePayload ''c'')
   \<and> isRevealed revealedRelease \<and> revealed revealedRelease = Some exampleHex \<and> exampleHex \<noteq> []
   \<and> decryptMetadata exampleRuntime exampleHex None ''t0''
        = Some \<lparr>MediaMetadata.filename = Str ''encrypted-file'', size' = Num (Fin 0),
                type = Str ''application/octet-stream'', MediaMetadata.fileCid = Str ''Qm'',
                MediaMetadata.decryptionKey = Str ''0a'', timestamp = ''t0''\<rparr>
   \<and> decryptMetadata (exampleRuntime\<lparr>keccak256 := (\<lambda>bs. ''0x22'')\<rparr>) exampleHex None ''t0''
        = decryptMetadata exampleRuntime exampleHex None ''t0''
   \<and> handleReleaseSelect exampleRuntime revealedRelease ''t0''
        = decryptMetadata exampleRuntime exampleHex None ''t0''"
proof -
  have a: "parseRevealed exampleRuntime exampleHex = Inr (exampleJson, examplePayload)"
    by (simp add: parseRevealed_def exampleRuntime_def)
  have b: "truthy (getProp examplePayload ''k'')" by (simp add: examplePayload_def)
  have c: "truthy (getProp examplePayload ''c'')" by (simp add: examplePayload_def)
  have d: "None = None \<or> (\<exists>r. None = Some r \<and> fileCidHash r = [])" by simp
  have e: "isRevealed revealedRelease \<and> revealed revealedRelease = Some exampleHex \<and> exampleHex \<noteq> []"
    by (simp add: revealedRelease_def releaseById_def exampleHex_def)
  from decryptMetadata_without_release_accepts [OF a b c d, of "''t0''" "\<lambda>bs. ''0x22''" revealedRelease]
       a b c e
  show ?thesis by (simp add: examplePayload_def orElse_def)
qed

text \<open>
  Claim C2 as stated fails: it is not the case that every revealed payload whose locator
  hashes to something else than the release's \<^verbatim>\<open>fileCidHash\<close> is rejected when the viewer
  verifies it.
\<close>

theorem viewer_accepts_mismatching_locator:
  "\<not> (\<forall>rt release revealedData json payload c bs now.
         isRevealed release \<and> revealed release = Some revealedData \<and> revealedData \<noteq> []
         \<and> parseRevealed rt revealedData = Inr (json, payload)
         \<and> getProp payload ''c'' = Str c
         \<and> toUtf8Bytes rt c = Inr bs
         \<and> toLowerCase rt (keccak256 rt bs) \<noteq> toLowerCase rt (fileCidHash release)
         \<longrightarrow> handleReleaseSelect rt release now = None)"
proof
  assume h: "\<forall>rt release revealedData json payload c bs now.
         isRevealed release \<and> revealed release = Some revealedData \<and> revealedData \<noteq> []
         \<and> parseRevealed rt revealedData = Inr (json, payload)
         \<and> getProp payload ''c'' = Str c
         \<and> toUtf8Bytes rt c = Inr bs
         \<and> toLowerCase rt (keccak256 rt bs) \<noteq> toLowerCase rt (fileCidHash release)
         \<longrightarrow> handleReleaseSelect rt release now = None"
  have "isRevealed revealedRelease \<and> revealed revealedRelease = Some exampleHex \<and> exampleHex \<noteq> []
         \<and> parseRevealed exampleRuntime exampleHex = Inr (exampleJson, examplePayload)
         \<and> getProp examplePayload ''c'' = Str ''Qm''
         \<and> toUtf8Bytes exampleRuntime ''Qm'' = Inr [0x51, 0x6d]
         \<and> toLowerCase exampleRuntime (keccak256 exampleRuntime [0x51, 0x6d])
             \<noteq> toLowerCase exampleRuntime (fileCidHash revealedRelease)"
    by (simp add: revealedRelease_def releaseById_def exampleHex_def parseRevealed_def
        exampleRuntime_def examplePayload_def exampleJson_def)
  with h have "handleReleaseSelect exampleRuntime revealedRelease ''t0'' = None" by blast
  moreover have "handleReleaseSelect exampleRuntime revealedRelease ''t0'' \<noteq> None"
    by (simp add: handleReleaseSelect_def decryptMetadata_def revealedRelease_def releaseById_def
        exampleHex_def parseRevealed_def exampleRuntime_def examplePayload_def checkCidHash_def)
  ultimately show False by simp
qed

text \<open>
  Claim C2, amended.  When \<^verbatim>\<open>decryptMetadata\<close> is given the release and its
  \<^verbatim>\<open>fileCidHash\<close> is not empty, a payload that parses with a truthy \<^verbatim>\<open>k\<close> and a
  non-empty locator string \<^verbatim>\<open>c\<close> whose keccak hash differs from \<^verbatim>\<open>fileCidHash\<close> (both
  lower-cased) fails the check with \<open>HashMismatch\<close> and no metadata is produced.  The
  function returns only the metadata; it has no access to the store.
\<close>

theorem decryptMetadata_rejects_hash_mismatch:
  assumes "parseRevealed rt revealedData = Inr (json, payload)"
    and "truthy (getProp payload ''k'')"
    and "getProp payload ''c'' = Str c"
    and "c \<noteq> []"
    and "fileCidHash release \<noteq> []"
    and "toUtf8Bytes rt c = Inr bs"
    and "toLowerCase rt (keccak256 rt bs) \<noteq> toLowerCase rt (fileCidHash release)"
  shows "decryptMetadata rt revealedData (Some release) now = None
       \<and> checkCidHash rt (getProp payload ''c'') (Some release) = Inl HashMismatch"
proof -
  have p: "truthy payload" using assms(2) by (rule truthy_getProp_obj)
  have c: "checkCidHash rt (getProp payload ''c'') (Some release) = Inl HashMismatch"
    using assms(3,5,6,7) by (simp add: checkCidHash_def)
  show ?thesis
    using assms(1,2,3,4) p c by (simp add: decryptMetadata_def)
qed

theorem decryptMetadata_rejects_hash_mismatch_witness:
  "parseRevealed exampleRuntime exampleHex = Inr (exampleJson, examplePayload)
   \<and> truthy (getProp examplePayload ''k'')
   \<and> getProp examplePayload ''c'' = Str ''Qm''
   \<and> ''Qm'' \<noteq> []
   \<and> fileCidHash revealedRelease \<noteq> []
   \<and> toUtf8Bytes exampleRuntime ''Qm'' = Inr [0x51, 0x6d]
   \<and> toLowerCase exampleRuntime (keccak256 exampleRuntime [0x51, 0x6d])
       \<noteq> toLowerCase exampleRuntime (fileCidHash revealedRelease)
   \<and> decryptMetadata exampleRuntime exampleHex (Some revealedRelease) ''t0'' = None
   \<and> checkCidHash exampleRuntime (getProp examplePayload ''c'') (Some revealedRelease) = Inl HashMismatch"
proof -
  have a: "parseRevealed exampleRuntime exampleHex = Inr (exampleJson, examplePayload)"
    by (simp add: parseRevealed_def exampleRuntime_def)
  have b: "truthy (getProp examplePayload ''k'')" by (simp add: examplePayload_def)
  have c: "getProp examplePayload ''c'' = Str ''Qm''" by (simp add: examplePayload_def)
  have d: "''Qm'' \<noteq> []" by simp
  have e: "fileCidHash revealedRelease \<noteq> []" by (simp add: revealedRelease_def releaseById_def)
  have f: "toUtf8Bytes exampleRuntime ''Qm'' = Inr [0x51, 0x6d]"
    by (simp add: exampleRuntime_def exampleJson_def)
  have g: "toLowerCase exampleRuntime (keccak256 exampleRuntime [0x51, 0x6d])
       \<noteq> toLowerCase exampleRuntime (fileCidHash revealedRelease)"
    by (simp add: exampleRuntime_def revealedRelease_def releaseById_def)
  from decryptMetadata_rejects_hash_mismatch [OF a b c d e f g, of "''t0''"] a b c d e f g
  show ?thesis by simp
qed

lemma getProp_payloadObj:
  "getProp (payloadObj request) ''k'' = Str (MediaReleaseRequest.decryptionKey request)"
  "getProp (payloadObj request) ''c'' = Str (MediaReleaseRequest.fileCid request)"
  "getProp (payloadObj request) ''n''
     = (case MediaReleaseRequest.filename request of
          None \<Rightarrow> Undefined | Some n \<Rightarrow> (if n \<noteq> [] then Str n else Undefined))"
  "getProp (payloadObj request) ''t''
     = (case filetype request of
          None \<Rightarrow> Undefined | Some t \<Rightarrow> (if t \<noteq> [] then Str t else Undefined))"
  "getProp (payloadObj request) ''s''
     = (case filesize request of None \<Rightarrow> Undefined | Some s \<Rightarrow> Num s)"
  by (simp_all add: payloadObj_def split: option.splits)

section \<open>The payload round trip\<close>

subsection \<open>The built-ins on an example\<close>

lemma quote_example:
  "quote [CHR 0x0A, CHR 0x01, CHR ''a'']
     = [CHR 0x22, CHR 0x5C, CHR ''n'', CHR 0x5C, CHR ''u'', CHR ''0'', CHR ''0'', CHR ''0'', CHR ''1'', CHR ''a'', CHR 0x22]"
  by (simp add: quote_def escapeChar_def hexChar_def char_of_eq_iff)

lemma decimal_example: "decimal 1024 = ''1024''"
  by (simp add: decimal.simps char_of_eq_iff)

subsection \<open>Strings\<close>

lemma hexVal_hexChar: "n < 16 \<Longrightarrow> hexVal (hexChar n) = Some n"
  by (auto simp: hexVal_def hexChar_def Let_def)

lemma codeUnit_control:
  assumes "n < 32"
  shows "codeUnit (CHR ''0'') (CHR ''0'') (hexChar (n div 16)) (hexChar (n mod 16)) = Some n"
proof -
  from assms have a: "n div 16 < 16" by simp
  have b: "n mod 16 < 16" by simp
  have z: "hexVal (CHR ''0'') = Some 0" by (simp add: hexVal_def)
  show ?thesis
    unfolding codeUnit_def hexVal_hexChar [OF a] hexVal_hexChar [OF b] z by simp
qed

lemma char_code:
  "c = CHR 0x22 \<longleftrightarrow> (of_char c :: nat) = 34"
  "c = CHR 0x5C \<longleftrightarrow> (of_char c :: nat) = 92"
proof -
  have "(of_char (CHR 0x22) :: nat) = 34" "(of_char (CHR 0x5C) :: nat) = 92" by simp_all
  then show "c = CHR 0x22 \<longleftrightarrow> (of_char c :: nat) = 34" "c = CHR 0x5C \<longleftrightarrow> (of_char c :: nat) = 92"
    by (metis of_char_eq_iff)+
qed

lemma char_of_code:
  "char_of (n::nat) = c \<longleftrightarrow> n mod 256 = of_char c"
  "c = char_of (n::nat) \<longleftrightarrow> of_char c = n mod 256"
  using char_of_eq_iff [of n c] by (auto simp: take_bit_eq_mod)

lemma parseChars_escapeChar:
  "parseChars (escapeChar c @ cs) =
     (case parseChars cs of None \<Rightarrow> None | Some (s, rest) \<Rightarrow> Some (c # s, rest))"
proof -
  define n :: nat where "n = of_char c"
  have c: "c = char_of n" by (simp add: n_def)
  consider "n = 34" | "n = 92" | "n = 8" | "n = 12" | "n = 10" | "n = 13" | "n = 9"
    | "n < 32" "n \<notin> {8, 9, 10, 12, 13}" | "n \<ge> 32" "n \<noteq> 34" "n \<noteq> 92"
    by fastforce
  then show ?thesis
  proof cases
    case 8
    have cu: "codeUnit (CHR ''0'') (CHR ''0'') (hexChar (n div 16)) (hexChar (n mod 16)) = Some n"
      using 8(1) by (rule codeUnit_control)
    have e: "escapeChar c = [CHR 0x5C, CHR ''u'', CHR ''0'', CHR ''0'', hexChar (n div 16), hexChar (n mod 16)]"
      using 8 by (auto simp: escapeChar_def n_def [symmetric] Let_def)
    show ?thesis
      unfolding e using cu 8(1) c by (simp split: option.splits)
  next
    case 9
    then have e: "escapeChar c = [c]"
      by (auto simp: escapeChar_def n_def [symmetric] Let_def)
    show ?thesis
      unfolding e using 9 by (simp add: char_code n_def [symmetric] split: option.splits)
  qed (auto simp: escapeChar_def n_def [symmetric] Let_def simpleEscape_def c char_of_code
        split: option.splits)
qed

lemma parseChars_quote:
  "parseChars (concat (map escapeChar s) @ CHR 0x22 # rest) = Some (s, rest)"
  by (induction s) (simp_all add: parseChars_escapeChar)


subsection \<open>Numbers\<close>

lemma digit_code: "d < 10 \<Longrightarrow> (of_char (char_of (48 + d)) :: nat) = 48 + d"
  by simp

lemma decimal_digits: "c \<in> set (decimal n) \<Longrightarrow> isDigit c"
proof (induction n rule: decimal.induct)
  case (1 n)
  show ?case
  proof (cases "n < 10")
    case True
    with 1(2) show ?thesis by (simp add: decimal.simps [of n] isDigit_def)
  next
    case False
    from 1(2) False have "c \<in> set (decimal (n div 10)) \<or> c = char_of (48 + n mod 10)"
      by (auto simp: decimal.simps [of n])
    then show ?thesis
    proof
      assume "c \<in> set (decimal (n div 10))"
      with 1(1) False show ?thesis by simp
    next
      assume "c = char_of (48 + n mod 10)"
      then show ?thesis by (simp add: isDigit_def)
    qed
  qed
qed

lemma decimal_nonempty: "decimal n \<noteq> []"
  by (subst decimal.simps) simp

lemma natOfDigits_snoc: "natOfDigits (ds @ [c]) = 10 * natOfDigits ds + (of_char c - 48)"
  by (simp add: natOfDigits_def)

lemma natOfDigits_decimal: "natOfDigits (decimal n) = n"
proof (induction n rule: decimal.induct)
  case (1 n)
  show ?case
  proof (cases "n < 10")
    case True
    then show ?thesis by (simp add: decimal.simps [of n] natOfDigits_def)
  next
    case False
    with 1 have "natOfDigits (decimal (n div 10)) = n div 10" by simp
    with False show ?thesis by (simp add: decimal.simps [of n] natOfDigits_snoc)
  qed
qed

lemma hd_decimal: "0 < n \<Longrightarrow> hd (decimal n) \<noteq> CHR ''0''"
proof (induction n rule: decimal.induct)
  case (1 n)
  show ?case
  proof (cases "n < 10")
    case True
    with 1(2) show ?thesis by (simp add: decimal.simps [of n] char_of_code)
  next
    case False
    with 1 have "hd (decimal (n div 10)) \<noteq> CHR ''0''" by simp
    with False show ?thesis by (simp add: decimal.simps [of n] decimal_nonempty)
  qed
qed

lemma decimal_0: "decimal 0 = ''0''"
  by (simp add: decimal.simps char_of_code)

lemma stops_digit: "stops rest \<Longrightarrow> takeWhile isDigit rest = [] \<and> dropWhile isDigit rest = rest"
  by (cases rest) (auto simp: stops_def isDigit_def)

lemma parseDigits_decimal:
  assumes "stops rest"
  shows "parseDigits (decimal n @ rest) = Some (n, rest)"
proof -
  have t: "takeWhile isDigit (decimal n @ rest) = decimal n"
    using stops_digit [OF assms] by (simp add: decimal_digits)
  have d: "dropWhile isDigit (decimal n @ rest) = rest"
    using stops_digit [OF assms] by (simp add: decimal_digits)
  have z: "\<not> (hd (decimal n) = CHR ''0'' \<and> 1 < length (decimal n))"
    using hd_decimal [of n] by (cases "n = 0") (simp_all add: decimal_0)
  have r: "\<not> (rest \<noteq> [] \<and> (hd rest = CHR ''.'' \<or> hd rest = CHR ''e'' \<or> hd rest = CHR ''E''))"
    using assms by (cases rest) (auto simp: stops_def)
  show ?thesis
    unfolding parseDigits_def t d Let_def using z r
    by (simp add: decimal_nonempty natOfDigits_decimal)
qed

lemma hd_decimal_digit: "isDigit (hd (decimal n))"
  using decimal_nonempty [of n] decimal_digits [of "hd (decimal n)" n] by simp

lemma parseInt_decimalInt:
  assumes "stops rest"
  shows "parseInt (decimalInt k @ rest) = Some (k, rest)"
proof (cases "k < 0")
  case True
  then show ?thesis
    by (simp add: parseInt_def decimalInt_def parseDigits_decimal [OF assms])
next
  case False
  obtain c cs where cs: "decimal (nat k) = c # cs"
    using decimal_nonempty [of "nat k"] by (cases "decimal (nat k)") auto
  have "isDigit c" using hd_decimal_digit [of "nat k"] cs by simp
  then have "c \<noteq> CHR ''-''" by (auto simp: isDigit_def)
  moreover have "parseDigits (c # cs @ rest) = Some (nat k, rest)"
    using parseDigits_decimal [OF assms, of "nat k"] cs by simp
  ultimately show ?thesis
    using False by (simp add: parseInt_def decimalInt_def cs)
qed

lemma decimalInt_head: "\<exists>c cs. decimalInt k = c # cs \<and> (c = CHR ''-'' \<or> isDigit c)"
proof (cases "k < 0")
  case True
  then show ?thesis by (simp add: decimalInt_def)
next
  case False
  obtain c cs where cs: "decimal (nat k) = c # cs"
    using decimal_nonempty [of "nat k"] by (cases "decimal (nat k)") auto
  have "isDigit c" using hd_decimal_digit [of "nat k"] cs by simp
  with False cs show ?thesis by (simp add: decimalInt_def)
qed

subsection \<open>Member values\<close>

lemma parseValue_plain:
  assumes "plain v" and "stops rest"
  shows "\<exists>c t. stringifyScalar v = Some (c # t) \<and> \<not> isWs c
           \<and> parseValue (c # t @ rest) = Some (v, rest)"
proof (cases v)
  case (Str s)
  have "parseValue (quote s @ rest) = Some (Str s, rest)"
    by (simp add: parseValue_def quote_def parseChars_quote)
  then show ?thesis using Str by (simp add: quote_def isWs_def)
next
  case (Num x)
  with assms(1) obtain r where x: "x = Fin r" and r: "r = of_int \<lfloor>r\<rfloor>" "\<bar>r\<bar> < 2 ^ 53"
    by (cases x) auto
  define k where "k = \<lfloor>r\<rfloor>"
  have rk: "r = of_int k" using r(1) by (simp add: k_def)
  have kb: "\<bar>k\<bar> < 2 ^ 53" using r(2) unfolding rk by (metis of_int_abs of_int_less_numeral_power_cancel_iff)
  obtain c t where ct: "decimalInt k = c # t" "c = CHR ''-'' \<or> isDigit c"
    using decimalInt_head [of k] by auto
  have p: "parseInt (c # t @ rest) = Some (k, rest)"
    using parseInt_decimalInt [OF assms(2), of k] ct(1) by simp
  have "parseValue (c # t @ rest) = Some (Num (Fin (of_int k)), rest)"
    using ct(2) p by (auto simp: parseValue_def roundToDouble_int [OF kb] isDigit_def)
  moreover have "\<not> isWs c" using ct(2) by (auto simp: isWs_def isDigit_def)
  moreover have "stringifyScalar v = Some (c # t)"
    using Num x r ct(1) by (simp add: k_def)
  ultimately show ?thesis using Num x rk by simp
next
  case Null
  then show ?thesis by (simp add: parseValue_def isWs_def isDigit_def)
next
  case (Bool b)
  then show ?thesis by (cases b) (simp_all add: parseValue_def isWs_def isDigit_def)
qed (use assms(1) in simp_all)

subsection \<open>Objects\<close>

lemma fresh_update: "k \<notin> fst ` set al \<Longrightarrow> AList.update k v al = al @ [(k, v)]"
  by (induction al) auto

lemma parseMembers_member:
  assumes "plain v" and "stringifyScalar v = Some t" and "stops r"
  shows "parseMembers (Suc fuel) acc (quote k @ CHR '':'' # t @ r)
           = (case r of
                [] \<Rightarrow> None
              | c # r' \<Rightarrow> (if c = CHR '','' then parseMembers fuel (AList.update k v acc) r'
                            else Some (AList.update k v acc, r')))"
proof -
  from parseValue_plain [OF assms(1,3)] assms(2) obtain c t' where
    t: "t = c # t'" and ws: "\<not> isWs c" and p: "parseValue (c # t' @ r) = Some (v, r)"
    by auto
  have q: "\<not> isWs (CHR 0x22)" "\<not> isWs (CHR '':'')" "\<not> isWs (CHR '','')" "\<not> isWs (CHR ''}'')"
    by (simp_all add: isWs_def)
  have r: "dropWhile isWs r = r"
    using assms(3) q by (cases r) (auto simp: stops_def)
  show ?thesis
    using assms(3) ws p q
    by (cases r) (auto simp: quote_def parseChars_quote t r stops_def)
qed

lemma members_plain:
  "list_all (\<lambda>kv. plain (snd kv)) kvs \<Longrightarrow>
     members kvs = Some (map (\<lambda>(k, v). quote k @ CHR '':'' # the (stringifyScalar v)) kvs)
     \<and> list_all (\<lambda>kv. stringifyScalar (snd kv) \<noteq> None) kvs"
proof (induction kvs)
  case Nil
  then show ?case by simp
next
  case (Cons kv kvs)
  obtain k v where kv: "kv = (k, v)" by (cases kv)
  from Cons.prems kv have pv: "plain v" by simp
  from parseValue_plain [OF pv, of "[]"] obtain t where "stringifyScalar v = Some t"
    by (auto simp: stops_def)
  moreover from pv have "v \<noteq> Undefined" by auto
  ultimately show ?case using Cons kv by simp
qed

lemma parseMembers_text:
  assumes "list_all (\<lambda>kv. plain (snd kv)) kvs" and "distinct (map fst kvs)"
    and "fst ` set kvs \<inter> fst ` set acc = {}" and "kvs \<noteq> []" and "length kvs \<le> fuel"
  shows "parseMembers fuel acc
           (commaSep (map (\<lambda>(k, v). quote k @ CHR '':'' # the (stringifyScalar v)) kvs) @ CHR ''}'' # rest)
         = Some (acc @ kvs, rest)"
  using assms
proof (induction kvs arbitrary: acc fuel)
  case Nil
  then show ?case by simp
next
  case (Cons kv kvs)
  obtain k v where kv: "kv = (k, v)" by (cases kv)
  from Cons.prems(1) kv have pv: "plain v" by simp
  from parseValue_plain [OF pv, of "[]"] obtain t where t: "stringifyScalar v = Some t"
    by (auto simp: stops_def)
  from Cons.prems(5) obtain fuel' where fuel: "fuel = Suc fuel'" "length kvs \<le> fuel'"
    by (cases fuel) auto
  from Cons.prems(3) kv have fresh: "k \<notin> fst ` set acc" by auto
  show ?case
  proof (cases kvs)
    case Nil
    have "parseMembers (Suc fuel') acc (quote k @ CHR '':'' # t @ CHR ''}'' # rest)
            = Some (AList.update k v acc, rest)"
      by (subst parseMembers_member [OF pv t]) (simp_all add: stops_def)
    then show ?thesis
      using Nil kv t fuel fresh by (simp add: fresh_update)
  next
    case (Cons kv' kvs')
    let ?m = "\<lambda>(k, v). quote k @ CHR '':'' # the (stringifyScalar v)"
    have step: "parseMembers (Suc fuel') acc (quote k @ CHR '':'' # t @ CHR '','' # commaSep (map ?m kvs) @ CHR ''}'' # rest)
            = parseMembers fuel' (AList.update k v acc) (commaSep (map ?m kvs) @ CHR ''}'' # rest)"
      by (subst parseMembers_member [OF pv t]) (simp_all add: stops_def)
    have disj: "fst ` set kvs \<inter> fst ` set (acc @ [(k, v)]) = {}"
      using Cons.prems(2,3) kv by auto
    have "parseMembers fuel' (acc @ [(k, v)]) (commaSep (map ?m kvs) @ CHR ''}'' # rest)
            = Some ((acc @ [(k, v)]) @ kvs, rest)"
      using Cons.IH [OF _ _ disj _ fuel(2)] Cons.prems(1,2) Cons by simp
    with step show ?thesis
      using Cons kv t fuel fresh by (simp add: fresh_update)
  qed
qed

lemma commaSep_length: "list_all (\<lambda>m. m \<noteq> []) ms \<Longrightarrow> length ms \<le> length (commaSep ms)"
proof (induction ms rule: commaSep.induct)
  case (2 x)
  then show ?case by (cases x) simp_all
qed simp_all

text \<open>A flat object with distinct keys, none of them made of digits, and plain member
  values is read back as written.\<close>

lemma jsonParse_jsonStringify:
  assumes "list_all (\<lambda>kv. plain (snd kv)) kvs" and "distinct (map fst kvs)"
    and "\<not> list_ex indexLike (map fst kvs)"
  shows "\<exists>json. jsonStringify (Obj kvs) = Some json \<and> jsonParse json = Some (Obj kvs)"
proof -
  let ?m = "\<lambda>(k, v). quote k @ CHR '':'' # the (stringifyScalar v)"
  have ms: "members kvs = Some (map ?m kvs)"
    using members_plain [OF assms(1)] by simp
  have s: "jsonStringify (Obj kvs) = Some (CHR ''{'' # commaSep (map ?m kvs) @ [CHR ''}''])"
    using assms(2,3) ms by (simp add: jsonStringify_def)
  have q: "\<not> isWs (CHR 0x22)" "\<not> isWs (CHR ''{'')" "\<not> isWs (CHR ''}'')"
    by (simp_all add: isWs_def)
  have "jsonParse (CHR ''{'' # commaSep (map ?m kvs) @ [CHR ''}'']) = Some (Obj kvs)"
  proof (cases kvs)
    case Nil
    then show ?thesis using q by (simp add: jsonParse_def parseObject_def)
  next
    case (Cons kv kvs')
    obtain k v where kv: "kv = (k, v)" by (cases kv)
    obtain tl' where hd: "commaSep (map ?m kvs) = CHR 0x22 # tl'"
      using Cons kv by (cases kvs') (simp_all add: quote_def)
    have ne: "list_all (\<lambda>m. m \<noteq> []) (map ?m kvs)"
      by (simp add: list_all_iff quote_def split: prod.splits)
    have len: "length kvs \<le> length (commaSep (map ?m kvs) @ [CHR ''}''])"
      using commaSep_length [OF ne] by simp
    have "parseMembers (length (commaSep (map ?m kvs) @ [CHR ''}''])) []
            (commaSep (map ?m kvs) @ CHR ''}'' # []) = Some ([] @ kvs, [])"
      using Cons by (intro parseMembers_text [OF assms(1,2) _ _ len]) simp_all
    then have "parseObject (commaSep (map ?m kvs) @ [CHR ''}'']) = Some (kvs, [])"
      unfolding parseObject_def using q by (simp add: hd char_code)
    then show ?thesis
      using q assms(3) by (simp add: jsonParse_def)
  qed
  with s show ?thesis by simp
qed

subsection \<open>UTF-8 and hexadecimal\<close>

lemma utf8Decode_low:
  "unat b < 128 \<Longrightarrow> utf8Decode (b # bs) = map_option ((#) (char_of (unat b))) (utf8Decode bs)"
  by (cases bs) simp_all

lemma utf8Decode_utf8Encode: "utf8Decode (utf8Encode s) = Some s"
proof (induction s)
  case Nil
  then show ?case by (simp add: utf8Encode_def)
next
  case (Cons c s)
  define n :: nat where "n = of_char c"
  have n: "n < 256" by (simp add: n_def)
  have c: "char_of n = c" by (simp add: n_def)
  have IH: "utf8Decode (utf8Encode s) = Some s" by (rule Cons.IH)
  show ?case
  proof (cases "n < 128")
    case True
    then have e: "utf8Encode (c # s) = (of_nat n :: 8 word) # utf8Encode s"
      by (simp add: utf8Encode_def n_def)
    have u: "unat (of_nat n :: 8 word) = n" using n by (simp add: unat_of_nat)
    show ?thesis
      unfolding e using True u IH c by (simp add: utf8Decode_low)
  next
    case False
    then have e: "utf8Encode (c # s)
        = (of_nat (192 + n div 64) :: 8 word) # (of_nat (128 + n mod 64) :: 8 word) # utf8Encode s"
      by (simp add: utf8Encode_def n_def Let_def)
    have d: "n div 64 = 2 \<or> n div 64 = 3" using False n by arith
    then have u1: "unat (of_nat (192 + n div 64) :: 8 word) = 192 + n div 64"
      by (auto simp: unat_of_nat)
    have "n mod 64 < 64" by simp
    then have "(128 + n mod 64) mod 256 = 128 + n mod 64" by simp
    then have u2: "unat (of_nat (128 + n mod 64) :: 8 word) = 128 + n mod 64"
      by (subst unat_of_nat) simp
    show ?thesis
      unfolding e using d u1 u2 IH c by auto
  qed
qed

lemma hexPairs_pairs:
  "hexPairs (concat (map (\<lambda>b. [hexChar (unat b div 16), hexChar (unat b mod 16)]) bs)) = Some bs"
proof (induction bs)
  case Nil
  then show ?case by simp
next
  case (Cons b bs)
  have "unat b < 256" using unsigned_less [of b, where ?'a = nat] by simp
  then have a: "unat b div 16 < 16" by simp
  have m: "unat b mod 16 < 16" by simp
  have "(of_nat (unat b div 16 * 16 + unat b mod 16) :: 8 word) = b"
    by (simp add: div_mult_mod_eq)
  then show ?case
    using Cons by (simp add: hexVal_hexChar [OF a] hexVal_hexChar [OF m])
qed

lemma hexDecode_hexEncode: "hexDecode (hexEncode bs) = Some bs"
  by (simp add: hexDecode_def hexEncode_def hexPairs_pairs)

subsection \<open>The payload\<close>

lemma payloadObj_flat:
  assumes "\<forall>s. filesize request = Some s \<longrightarrow> (\<exists>k. s = Fin (of_int k) \<and> \<bar>k\<bar> < 2 ^ 53)"
  shows "\<exists>kvs. payloadObj request = Obj kvs \<and> list_all (\<lambda>kv. plain (snd kv)) kvs
           \<and> distinct (map fst kvs) \<and> \<not> list_ex indexLike (map fst kvs)"
proof -
  have size: "plain (Num s)" if "filesize request = Some s" for s
  proof -
    from assms that obtain k :: int where k: "s = Fin (of_int k)" "\<bar>k\<bar> < 2 ^ 53" by auto
    have "\<bar>of_int k :: real\<bar> < 2 ^ 53"
      using k(2) by (metis of_int_abs of_int_less_numeral_power_cancel_iff)
    then show ?thesis using k(1) by simp
  qed
  have keys: "\<not> indexLike ''k''" "\<not> indexLike ''c''" "\<not> indexLike ''n''" "\<not> indexLike ''t''"
    "\<not> indexLike ''s''"
    by (simp_all add: indexLike_def isDigit_def)
  show ?thesis
    using size keys by (auto simp: payloadObj_def split: option.splits)
qed

lemma computed_simps:
  "JSON_stringify (computed rt) v = (case jsonStringify v of Some s \<Rightarrow> s | None \<Rightarrow> JSON_stringify rt v)"
  "JSON_parse (computed rt) s = (case jsonParse s of Some v \<Rightarrow> Some v | None \<Rightarrow> JSON_parse rt s)"
  "toUtf8Bytes (computed rt) s = Inr (utf8Encode s)"
  "toUtf8String (computed rt) h =
     (case hexDecode h of
        None \<Rightarrow> toUtf8String rt h
      | Some bs \<Rightarrow> (case utf8Decode bs of None \<Rightarrow> toUtf8String rt h | Some s \<Rightarrow> Inr s))"
  "hexlify (computed rt) = hexEncode"
  "keccak256 (computed rt) = keccak256 rt"
  "toLowerCase (computed rt) = toLowerCase rt"
  by (simp_all add: computed_def)

text \<open>The bytes of the payload, read back as the viewer reads the revealed data.\<close>

lemma parseRevealed_payload:
  assumes "\<forall>s. filesize request = Some s \<longrightarrow> (\<exists>k. s = Fin (of_int k) \<and> \<bar>k\<bar> < 2 ^ 53)"
  shows "JSON_parse (computed rt) (JSON_stringify (computed rt) (payloadObj request))
           = Some (payloadObj request)"
    and "parseRevealed (computed rt)
           (hexlify (computed rt) (utf8Encode (JSON_stringify (computed rt) (payloadObj request))))
           = Inr (JSON_stringify (computed rt) (payloadObj request), payloadObj request)"
proof -
  from payloadObj_flat [OF assms] obtain kvs where
    kvs: "payloadObj request = Obj kvs" "list_all (\<lambda>kv. plain (snd kv)) kvs"
      "distinct (map fst kvs)" "\<not> list_ex indexLike (map fst kvs)"
    by auto
  from jsonParse_jsonStringify [OF kvs(2,3,4)] obtain json where
    json: "jsonStringify (payloadObj request) = Some json" "jsonParse json = Some (payloadObj request)"
    unfolding kvs(1) by auto
  have s: "JSON_stringify (computed rt) (payloadObj request) = json"
    using json(1) by (simp add: computed_simps)
  show p: "JSON_parse (computed rt) (JSON_stringify (computed rt) (payloadObj request))
             = Some (payloadObj request)"
    unfolding s using json(2) by (simp add: computed_simps)
  have u: "toUtf8String (computed rt) (hexlify (computed rt) (utf8Encode json)) = Inr json"
    by (simp add: computed_simps hexDecode_hexEncode utf8Decode_utf8Encode)
  show "parseRevealed (computed rt)
           (hexlify (computed rt) (utf8Encode (JSON_stringify (computed rt) (payloadObj request))))
           = Inr (JSON_stringify (computed rt) (payloadObj request), payloadObj request)"
    using p unfolding s parseRevealed_def u by simp
qed

text \<open>
  Claim C7.  For every request whose size, where one is given, is a whole number below
  \<open>2 ^ 53\<close>: the payload object built from the key, the locator and the optional file
  name, MIME type and size is written by \<^verbatim>\<open>JSON.stringify\<close> and \<^verbatim>\<open>toUtf8Bytes\<close>, and
  reading these bytes back with \<^verbatim>\<open>toUtf8String\<close> and \<^verbatim>\<open>JSON.parse\<close>, as the viewer
  does, yields the same object: \<^verbatim>\<open>k\<close> and \<^verbatim>\<open>c\<close> are the key and the locator, and
  \<^verbatim>\<open>n\<close>, \<^verbatim>\<open>t\<close>, \<^verbatim>\<open>s\<close> are the optional values where the builder included them.
\<close>

theorem reveal_payload_round_trip:
  assumes "\<forall>s. filesize request = Some s \<longrightarrow> (\<exists>k. s = Fin (of_int k) \<and> \<bar>k\<bar> < 2 ^ 53)"
  shows "\<exists>payloadBytes parsed.
           toUtf8Bytes (computed rt) (JSON_stringify (computed rt) (payloadObj request)) = Inr payloadBytes
         \<and> JSON_parse (computed rt) (JSON_stringify (computed rt) (payloadObj request)) = Some parsed
         \<and> parseRevealed (computed rt) (hexlify (computed rt) payloadBytes)
             = Inr (JSON_stringify (computed rt) (payloadObj request), parsed)
         \<and> parsed = payloadObj request
         \<and> getProp parsed ''k'' = Str (MediaReleaseRequest.decryptionKey request)
         \<and> getProp parsed ''c'' = Str (MediaReleaseRequest.fileCid request)
         \<and> getProp parsed ''n''
             = (case MediaReleaseRequest.filename request of
                  None \<Rightarrow> Undefined | Some n \<Rightarrow> (if n \<noteq> [] then Str n else Undefined))
         \<and> getProp parsed ''t''
             = (case filetype request of
                  None \<Rightarrow> Undefined | Some t \<Rightarrow> (if t \<noteq> [] then Str t else Undefined))
         \<and> getProp parsed ''s''
             = (case filesize request of None \<Rightarrow> Undefined | Some s \<Rightarrow> Num s)"
  using parseRevealed_payload [OF assms, of rt]
  by (simp add: computed_simps(3) getProp_payloadObj)

theorem reveal_payload_round_trip_witness:
  "filesize sizedRequest = Some (Fin (of_int 12)) \<and> \<bar>12 :: int\<bar> < 2 ^ 53
   \<and> (\<exists>payloadBytes.
         toUtf8Bytes (computed exampleRuntime) (JSON_stringify (computed exampleRuntime) (payloadObj sizedRequest))
           = Inr payloadBytes
       \<and> parseRevealed (computed exampleRuntime) (hexlify (computed exampleRuntime) payloadBytes)
           = Inr (JSON_stringify (computed exampleRuntime) (payloadObj sizedRequest),
                  Obj [(''k'', Str ''0a''), (''c'', Str ''Qm''), (''n'', Str ''a.b''), (''s'', Num (Fin 12))]))"
proof -
  have a: "\<forall>s. filesize sizedRequest = Some s \<longrightarrow> (\<exists>k. s = Fin (of_int k) \<and> \<bar>k\<bar> < 2 ^ 53)"
    by (auto simp: sizedRequest_def intro: exI [of _ 12])
  have e: "payloadObj sizedRequest
             = Obj [(''k'', Str ''0a''), (''c'', Str ''Qm''), (''n'', Str ''a.b''), (''s'', Num (Fin 12))]"
    by (simp add: payloadObj_def sizedRequest_def)
  have f: "filesize sizedRequest = Some (Fin (of_int 12))" by (simp add: sizedRequest_def)
  from reveal_payload_round_trip [OF a, of exampleRuntime] f show ?thesis
    unfolding e by auto
qed

text \<open>The text and the bytes of this example, and those of the payload without
  optional members, whose text is \<^verbatim>\<open>{"k":"0a","c":"Qm"}\<close>.\<close>

lemma sizedRequest_text:
  "jsonStringify (payloadObj sizedRequest)
     = Some ([CHR ''{'', CHR 0x22, CHR ''k'', CHR 0x22, CHR '':'', CHR 0x22, CHR ''0'', CHR ''a'', CHR 0x22,
              CHR '','', CHR 0x22, CHR ''c'', CHR 0x22, CHR '':'', CHR 0x22, CHR ''Q'', CHR ''m'', CHR 0x22,
              CHR '','', CHR 0x22, CHR ''n'', CHR 0x22, CHR '':'', CHR 0x22, CHR ''a'', CHR ''.'', CHR ''b'', CHR 0x22,
              CHR '','', CHR 0x22, CHR ''s'', CHR 0x22, CHR '':'', CHR ''1'', CHR ''2'',
              CHR ''}''])"
  by (simp add: payloadObj_def sizedRequest_def jsonStringify_def indexLike_def isDigit_def
      quote_def escapeChar_def decimalInt_def decimal.simps char_of_code)

lemma exampleRequest_text:
  "JSON_stringify (computed rt) (payloadObj exampleRequest) = exampleJson"
  "toUtf8Bytes (computed rt) exampleJson = Inr exampleBytes"
  "hexlify (computed rt) exampleBytes = exampleHex"
  "parseRevealed (computed rt) exampleHex = Inr (exampleJson, examplePayload)"
proof -
  show a: "JSON_stringify (computed rt) (payloadObj exampleRequest) = exampleJson"
    by (simp add: computed_simps payloadObj_def exampleRequest_def jsonStringify_def indexLike_def
        isDigit_def quote_def escapeChar_def exampleJson_def)
  show b: "toUtf8Bytes (computed rt) exampleJson = Inr exampleBytes"
    by (simp add: computed_simps utf8Encode_def exampleJson_def exampleBytes_def)
  show c: "hexlify (computed rt) exampleBytes = exampleHex"
    by (simp add: computed_simps hexEncode_def exampleBytes_def exampleHex_def hexChar_def char_of_code)
  have d: "payloadObj exampleRequest = examplePayload"
    by (simp add: payloadObj_def exampleRequest_def examplePayload_def)
  have "\<forall>s. filesize exampleRequest = Some s \<longrightarrow> (\<exists>k. s = Fin (of_int k) \<and> \<bar>k\<bar> < 2 ^ 53)"
    by (simp add: exampleRequest_def)
  from parseRevealed_payload(2) [OF this, of rt] a b c d
  show "parseRevealed (computed rt) exampleHex = Inr (exampleJson, examplePayload)"
    by (simp add: computed_simps(3))
qed

text \<open>The reader on text that the writer does not produce: white space, a repeated
  key, a negative number; a leading zero is rejected.\<close>

lemma jsonParse_examples:
  "jsonParse (''{ '' @ quote ''k'' @ '' : 1 , '' @ quote ''k'' @ '':-20}'')
     = Some (Obj [(''k'', Num (Fin (- 20)))])"
  "jsonParse (''{'' @ quote ''k'' @ '':01}'') = None"
proof -
  have r: "roundToDouble 1 = Fin 1" "roundToDouble (- 20) = Fin (- 20)"
    using roundToDouble_int [of 1] roundToDouble_int [of "- 20"] by simp_all
  show "jsonParse (''{ '' @ quote ''k'' @ '' : 1 , '' @ quote ''k'' @ '':-20}'')
          = Some (Obj [(''k'', Num (Fin (- 20)))])"
    by (simp add: jsonParse_def parseObject_def isWs_def quote_def escapeChar_def parseValue_def
        parseInt_def parseDigits_def isDigit_def natOfDigits_def indexLike_def r)
  show "jsonParse (''{'' @ quote ''k'' @ '':01}'') = None"
    by (simp add: jsonParse_def parseObject_def isWs_def quote_def escapeChar_def parseValue_def
        parseInt_def parseDigits_def isDigit_def)
qed

text \<open>JSON has no text for \<^verbatim>\<open>NaN\<close>: a size that is not a number of bytes is written
  as \<^verbatim>\<open>null\<close> and read back as \<^verbatim>\<open>null\<close>, which is why the round trip is stated for
  whole numbers.\<close>

lemma jsonParse_size_NaN:
  "\<exists>json. jsonStringify (Obj [(''s'', Num NaN)]) = Some json
     \<and> jsonParse json = Some (Obj [(''s'', Null)])"
  by (simp add: jsonStringify_def indexLike_def isDigit_def quote_def escapeChar_def
      jsonParse_def parseObject_def isWs_def parseValue_def)

text \<open>The hash the creation path sends to the contract is the one the verifier
  recomputes, so a payload that was created is accepted with its own values.\<close>

lemma created_payload_passes_verification:
  assumes "\<forall>s. filesize request = Some s \<longrightarrow> (\<exists>k. s = Fin (of_int k) \<and> \<bar>k\<bar> < 2 ^ 53)"
    and "MediaReleaseRequest.decryptionKey request \<noteq> []"
    and "MediaReleaseRequest.fileCid request \<noteq> []"
    and "toUtf8Bytes (computed rt) (JSON_stringify (computed rt) (payloadObj request)) = Inr payloadBytes"
    and "toUtf8Bytes (computed rt) (MediaReleaseRequest.fileCid request) = Inr cidBytes"
    and "fileCidHash release = keccak256 rt cidBytes"
  shows "decryptMetadata (computed rt) (hexlify (computed rt) payloadBytes) (Some release) now
           = Some \<lparr>MediaMetadata.filename = orElse (getProp (payloadObj request) ''n'') (Str ''encrypted-file''),
                   size' = orElse (getProp (payloadObj request) ''s'') (Num (Fin 0)),
                   type = orElse (getProp (payloadObj request) ''t'') (Str ''application/octet-stream''),
                   MediaMetadata.fileCid = Str (MediaReleaseRequest.fileCid request),
                   MediaMetadata.decryptionKey = Str (MediaReleaseRequest.decryptionKey request),
                   timestamp = now\<rparr>"
proof -
  from assms(4) have b: "payloadBytes = utf8Encode (JSON_stringify (computed rt) (payloadObj request))"
    by (simp add: computed_simps(3))
  from assms(5) have c: "cidBytes = utf8Encode (MediaReleaseRequest.fileCid request)"
    by (simp add: computed_simps(3))
  show ?thesis
    using assms(2,3,6) parseRevealed_payload(2) [OF assms(1), of rt]
    by (simp add: decryptMetadata_def b c getProp_payloadObj(1,2) checkCidHash_def
        computed_simps(3,6,7))
       (simp add: payloadObj_def)
qed


section \<open>Properties of the release store\<close>

lemma spread_item [simp]: "spread old item = item"
  by (cases old) (simp_all add: spread_def)

lemma update_fresh: "k \<notin> fst ` set al \<Longrightarrow> AList.update k v al = al @ [(k, v)]"
  by (induction al) auto

lemma byIdOf_aux:
  "distinct (map MediaReleaseInfo.requestId rs) \<Longrightarrow> MediaReleaseInfo.requestId ` set rs \<inter> fst ` set acc = {}
     \<Longrightarrow> foldl (\<lambda>byId r. AList.update (MediaReleaseInfo.requestId r) r byId) acc rs
           = acc @ map (\<lambda>r. (MediaReleaseInfo.requestId r, r)) rs"
proof (induction rs arbitrary: acc)
  case Nil
  then show ?case by simp
next
  case (Cons r rs)
  have fresh: "MediaReleaseInfo.requestId r \<notin> fst ` set acc" using Cons.prems(2) by auto
  have "MediaReleaseInfo.requestId ` set rs \<inter> fst ` set (acc @ [(MediaReleaseInfo.requestId r, r)]) = {}"
    using Cons.prems by auto
  with Cons.IH [of "acc @ [(MediaReleaseInfo.requestId r, r)]"] Cons.prems(1) fresh
  show ?case by (simp add: update_fresh)
qed

lemma byIdOf_distinct:
  "distinct (map MediaReleaseInfo.requestId rs) \<Longrightarrow> byIdOf rs = map (\<lambda>r. (MediaReleaseInfo.requestId r, r)) rs"
  using byIdOf_aux [of rs "[]"] by (simp add: byIdOf_def)

lemma map_of_keyed: "map_of (map (\<lambda>r. (MediaReleaseInfo.requestId r, r)) rs) k = getRelease rs k"
  by (induction rs) (auto simp: getRelease_def)

lemma getRelease_Some_iff:
  "distinct (map MediaReleaseInfo.requestId rs) \<Longrightarrow> getRelease rs k = Some r \<longleftrightarrow> r \<in> set rs \<and> MediaReleaseInfo.requestId r = k"
  by (induction rs) (auto simp: getRelease_def)

lemma getRelease_None_iff: "getRelease rs k = None \<longleftrightarrow> k \<notin> MediaReleaseInfo.requestId ` set rs"
  by (induction rs) (auto simp: getRelease_def)

lemma getRelease_cong_set:
  assumes "distinct (map MediaReleaseInfo.requestId xs)" "distinct (map MediaReleaseInfo.requestId ys)" "set xs = set ys"
  shows "getRelease xs k = getRelease ys k"
proof (cases "getRelease xs k")
  case None
  then show ?thesis using assms(3) getRelease_None_iff [of xs k] getRelease_None_iff [of ys k] by simp
next
  case (Some r)
  then show ?thesis
    using assms getRelease_Some_iff [of xs k r] getRelease_Some_iff [of ys k r] by simp
qed

lemma distinct_ids_sortDesc [simp]:
  "distinct (map MediaReleaseInfo.requestId (sortDesc rs)) = distinct (map MediaReleaseInfo.requestId rs)"
proof -
  have "mset (map MediaReleaseInfo.requestId (sortDesc rs)) = mset (map MediaReleaseInfo.requestId rs)"
    by (simp add: sortDesc_def)
  then show ?thesis by (rule mset_eq_imp_distinct_iff)
qed

lemma set_sortDesc [simp]: "set (sortDesc rs) = set rs"
  by (simp add: sortDesc_def)

lemma getRelease_sortDesc:
  "distinct (map MediaReleaseInfo.requestId rs) \<Longrightarrow> getRelease (sortDesc rs) k = getRelease rs k"
  by (rule getRelease_cong_set) simp_all

lemma mergeFetched_single:
  assumes "distinct (map MediaReleaseInfo.requestId prev)"
  shows "mergeFetched prev [v] = sortDesc (map snd (AList.update (MediaReleaseInfo.requestId v) v (map (\<lambda>r. (MediaReleaseInfo.requestId r, r)) prev)))"
  using assms by (simp add: mergeFetched_def byIdOf_distinct)

lemma keyed_update:
  "map fst (AList.update (MediaReleaseInfo.requestId v) v (map (\<lambda>r. (MediaReleaseInfo.requestId r, r)) prev))
     = map MediaReleaseInfo.requestId (map snd (AList.update (MediaReleaseInfo.requestId v) v (map (\<lambda>r. (MediaReleaseInfo.requestId r, r)) prev)))"
  by (induction prev) auto

lemma distinct_mergeFetched:
  assumes "distinct (map MediaReleaseInfo.requestId prev)"
  shows "distinct (map MediaReleaseInfo.requestId (mergeFetched prev [v]))"
proof -
  have "distinct (map fst (map (\<lambda>r. (MediaReleaseInfo.requestId r, r)) prev))"
    using assms by (simp add: comp_def)
  then have "distinct (map fst (AList.update (MediaReleaseInfo.requestId v) v (map (\<lambda>r. (MediaReleaseInfo.requestId r, r)) prev)))"
    by (rule distinct_update)
  then show ?thesis
    unfolding mergeFetched_single [OF assms] distinct_ids_sortDesc keyed_update .
qed

lemma getRelease_map_snd:
  "map fst al = map MediaReleaseInfo.requestId (map snd al) \<Longrightarrow> getRelease (map snd al) k = map_of al k"
proof (induction al)
  case Nil
  then show ?case by (simp add: getRelease_def)
next
  case (Cons p al)
  then show ?case by (cases p) (auto simp: getRelease_def)
qed

lemma getRelease_mergeFetched:
  assumes "distinct (map MediaReleaseInfo.requestId prev)"
  shows "getRelease (mergeFetched prev [v]) k = (if k = MediaReleaseInfo.requestId v then Some v else getRelease prev k)"
proof -
  let ?al = "AList.update (MediaReleaseInfo.requestId v) v (map (\<lambda>r. (MediaReleaseInfo.requestId r, r)) prev)"
  have d: "distinct (map MediaReleaseInfo.requestId (map snd ?al))"
    using distinct_mergeFetched [OF assms, of v]
    unfolding mergeFetched_single [OF assms] distinct_ids_sortDesc .
  have "getRelease (mergeFetched prev [v]) k = getRelease (map snd ?al) k"
    unfolding mergeFetched_single [OF assms] using d by (rule getRelease_sortDesc)
  also have "\<dots> = map_of ?al k"
    using keyed_update by (rule getRelease_map_snd)
  also have "\<dots> = (if k = MediaReleaseInfo.requestId v then Some v else getRelease prev k)"
    by (simp add: update_conv' map_of_keyed)
  finally show ?thesis .
qed

lemma ids_applyStatus [simp]: "map MediaReleaseInfo.requestId (applyStatus prev (MediaReleaseInfo.requestId v) v) = map MediaReleaseInfo.requestId prev"
  by (induction prev) (simp_all add: applyStatus_def)

lemma getRelease_applyStatus:
  "getRelease (applyStatus prev (MediaReleaseInfo.requestId v) v) k
     = (if k = MediaReleaseInfo.requestId v then (case getRelease prev k of None \<Rightarrow> None | Some r \<Rightarrow> Some v)
        else getRelease prev k)"
  by (induction prev) (auto simp: applyStatus_def getRelease_def)

lemma addLocal_single:
  "addLocal prev [v] = sortDesc (if MediaReleaseInfo.requestId v \<in> MediaReleaseInfo.requestId ` set prev then prev else v # prev)"
  by (simp add: addLocal_def)

lemma distinct_addLocal:
  "distinct (map MediaReleaseInfo.requestId prev) \<Longrightarrow> distinct (map MediaReleaseInfo.requestId (addLocal prev [v]))"
  by (simp add: addLocal_single)

lemma getRelease_addLocal:
  assumes "distinct (map MediaReleaseInfo.requestId prev)"
  shows "getRelease (addLocal prev [v]) k
           = (if k = MediaReleaseInfo.requestId v \<and> getRelease prev k = None then Some v else getRelease prev k)"
proof (cases "MediaReleaseInfo.requestId v \<in> MediaReleaseInfo.requestId ` set prev")
  case True
  then have "getRelease prev (MediaReleaseInfo.requestId v) \<noteq> None" by (simp add: getRelease_None_iff)
  then show ?thesis
    using True assms by (auto simp: addLocal_single getRelease_sortDesc)
next
  case False
  then have n: "getRelease prev (MediaReleaseInfo.requestId v) = None" by (simp add: getRelease_None_iff)
  have "distinct (map MediaReleaseInfo.requestId (v # prev))" using False assms by simp
  then have "getRelease (sortDesc (v # prev)) k = getRelease (v # prev) k"
    by (rule getRelease_sortDesc)
  then show ?thesis
    using False n by (auto simp: addLocal_single getRelease_def)
qed

lemma applyUpsert_step:
  assumes "distinct (map MediaReleaseInfo.requestId prev)" and "MediaReleaseInfo.requestId (viewOf u) = k"
  shows "distinct (map MediaReleaseInfo.requestId (applyUpsert prev u))
       \<and> getRelease (applyUpsert prev u) k = lastWrite (getRelease prev k) u"
proof (cases u)
  case (UpsertLocal v)
  then show ?thesis
    using assms by (cases "getRelease prev k") (auto simp: distinct_addLocal getRelease_addLocal)
next
  case (UpsertConfirmed v)
  then show ?thesis
    using assms by (auto simp: distinct_mergeFetched getRelease_mergeFetched)
next
  case (UpsertRevealed v)
  then show ?thesis
    using assms by (cases "getRelease prev k") (auto simp: getRelease_applyStatus)
qed

text \<open>
  Claim C1 as stated fails.  A revealed record is overwritten by a later confirmed view
  of the same release that carries \<^verbatim>\<open>isRevealed: false\<close> and \<^verbatim>\<open>revealed: undefined\<close>: the
  flag goes back to false and the payload is cleared.  The same two upserts in the other
  order leave a different record.
\<close>

theorem stale_confirmation_clears_reveal:
  "getRelease (foldl applyUpsert [] [UpsertConfirmed staleView, UpsertRevealed revealedRelease]) 7
     = Some revealedRelease
   \<and> isRevealed revealedRelease \<and> revealed revealedRelease = Some exampleHex
   \<and> getRelease (foldl applyUpsert []
        [UpsertConfirmed staleView, UpsertRevealed revealedRelease, UpsertConfirmed staleView]) 7
     = Some staleView
   \<and> \<not> isRevealed staleView \<and> revealed staleView = None
   \<and> getRelease (foldl applyUpsert [] [UpsertRevealed revealedRelease, UpsertConfirmed staleView]) 7
     = Some staleView
   \<and> staleView \<noteq> revealedRelease"
  by (simp add: mergeFetched_def byIdOf_def sortDesc_def applyStatus_def getRelease_def
      staleView_def revealedRelease_def fetchedItem_def releaseById_def)

text \<open>
  Claim C1, amended.  In a store with one record per request id, for every sequence of
  upserts of views of the same request id, the record kept under that id is the one
  obtained by last-write-wins: a confirmed view replaces the record in all its fields, a
  revealed view replaces it when a record exists, and a local view is stored only when
  none exists.  In particular, after a sequence that ends with a confirmed view the record
  is that view.  The store keeps one record per request id.
\<close>

theorem upserts_last_write_wins:
  assumes "distinct (map MediaReleaseInfo.requestId prev)"
    and "\<forall>u \<in> set us. MediaReleaseInfo.requestId (viewOf u) = k"
  shows "distinct (map MediaReleaseInfo.requestId (foldl applyUpsert prev us))
       \<and> getRelease (foldl applyUpsert prev us) k = foldl lastWrite (getRelease prev k) us
       \<and> (\<forall>us' v. us = us' @ [UpsertConfirmed v] \<longrightarrow>
             getRelease (foldl applyUpsert prev us) k = Some v)"
proof -
  have main: "distinct (map MediaReleaseInfo.requestId (foldl applyUpsert prev us))
       \<and> getRelease (foldl applyUpsert prev us) k = foldl lastWrite (getRelease prev k) us"
    using assms
  proof (induction us arbitrary: prev)
    case Nil
    then show ?case by simp
  next
    case (Cons u us)
    from Cons.prems have k: "MediaReleaseInfo.requestId (viewOf u) = k" by simp
    from applyUpsert_step [OF Cons.prems(1) k]
    have d: "distinct (map MediaReleaseInfo.requestId (applyUpsert prev u))"
      and g: "getRelease (applyUpsert prev u) k = lastWrite (getRelease prev k) u"
      by simp_all
    from Cons.IH [OF d] Cons.prems(2) g show ?case by simp
  qed
  then show ?thesis by auto
qed

theorem upserts_last_write_wins_witness:
  "distinct (map MediaReleaseInfo.requestId [])
   \<and> MediaReleaseInfo.requestId (viewOf (UpsertLocal (localItem ''0xabc'' 7 150))) = 7
   \<and> MediaReleaseInfo.requestId (viewOf (UpsertConfirmed staleView)) = 7
   \<and> distinct (map MediaReleaseInfo.requestId (foldl applyUpsert []
         [UpsertLocal (localItem ''0xabc'' 7 150), UpsertConfirmed staleView]))
   \<and> getRelease (foldl applyUpsert []
         [UpsertLocal (localItem ''0xabc'' 7 150), UpsertConfirmed staleView]) 7
       = foldl lastWrite (getRelease [] 7)
           [UpsertLocal (localItem ''0xabc'' 7 150), UpsertConfirmed staleView]
   \<and> getRelease (foldl applyUpsert []
         [UpsertLocal (localItem ''0xabc'' 7 150), UpsertConfirmed staleView]) 7 = Some staleView"
proof -
  have a: "distinct (map MediaReleaseInfo.requestId [])" by simp
  have b1: "MediaReleaseInfo.requestId (viewOf (UpsertLocal (localItem ''0xabc'' 7 150))) = 7"
    by (simp add: localItem_def)
  have b2: "MediaReleaseInfo.requestId (viewOf (UpsertConfirmed staleView)) = 7"
    by (simp add: staleView_def fetchedItem_def)
  have b: "\<forall>u \<in> set [UpsertLocal (localItem ''0xabc'' 7 150), UpsertConfirmed staleView].
         MediaReleaseInfo.requestId (viewOf u) = 7"
    using b1 b2 by simp
  from upserts_last_write_wins [OF a b] a b1 b2 show ?thesis by simp
qed


end
